theory Spec2Isabelle
  imports Complex_Main
begin

section \<open>Python and NumPy values\<close>

text \<open>
  The three scripts compute on float64 arrays. A float64 is modelled by a \<^typ>\<open>real\<close>:
  the arithmetic of the model is exact, so rounding, overflow, infinities and NaN are outside
  it, and a sum, a root or an integral of the model is the exact number that the float64
  result of the script approximates. Everything else is modelled as the scripts and the libraries they call behave: the
  dimension of an array, indexing that raises, broadcasting, files that are missing or
  cannot be opened, the decimal format of a written table.
\<close>

datatype py_error = OSError | ValueError | IndexError | SelectionError | SystemExit

definition bind_result :: "'e + 'a \<Rightarrow> ('a \<Rightarrow> 'e + 'b) \<Rightarrow> 'e + 'b" where
  "bind_result m f = (case m of Inl e \<Rightarrow> Inl e | Inr x \<Rightarrow> f x)"

text \<open>
  A step of a script that may raise: the exception ends the run in the state \<open>s\<close>
  reached before the step.
\<close>

definition bind_io :: "'e + 'a \<Rightarrow> 's \<Rightarrow> ('a \<Rightarrow> ('e + 'b) \<times> 's) \<Rightarrow> ('e + 'b) \<times> 's" where
  "bind_io m s f = (case m of Inl e \<Rightarrow> (Inl e, s) | Inr x \<Rightarrow> f x)"

text \<open>Python's \<^verbatim>\<open>xs[i]\<close> for a non-negative index: out of range raises IndexError.\<close>

definition py_index :: "'a list \<Rightarrow> nat \<Rightarrow> py_error + 'a" where
  "py_index xs i = (if i < length xs then Inr (xs ! i) else Inl IndexError)"

text \<open>
  A NumPy array of dimension 0, 1 or 2. A two-dimensional array is the list of its rows;
  \<open>Arr2 []\<close> stands for the shape (0, 0).
\<close>

datatype ndarray = Arr0 real | Arr1 "real list" | Arr2 "real list list"

definition ncols :: "real list list \<Rightarrow> nat" where
  "ncols rows = (case rows of [] \<Rightarrow> 0 | r # _ \<Rightarrow> length r)"

text \<open>
  \<^verbatim>\<open>a[:, k]\<close> read: only a two-dimensional array takes two indices, and \<open>k\<close> must
  be a column of it.
\<close>

definition col :: "ndarray \<Rightarrow> nat \<Rightarrow> py_error + real list" where
  "col a k = (case a of
      Arr2 rows \<Rightarrow> (if k < ncols rows then Inr (map (\<lambda>r. r ! k) rows) else Inl IndexError)
    | _ \<Rightarrow> Inl IndexError)"

text \<open>
  Broadcasting of one-dimensional operands: equal lengths, or a length-one operand that is
  repeated. \<open>broadcast_to\<close> is the one-sided rule of an assignment or an in-place
  operation (the right side is fitted to the left), \<open>broadcast2\<close> the two-sided rule of
  a binary operation.
\<close>

definition broadcast_to :: "real list \<Rightarrow> nat \<Rightarrow> py_error + real list" where
  "broadcast_to v n =
     (if length v = n then Inr v
      else if length v = 1 then Inr (replicate n (hd v))
      else Inl ValueError)"

definition broadcast2 :: "(real \<Rightarrow> real \<Rightarrow> real) \<Rightarrow> real list \<Rightarrow> real list \<Rightarrow> py_error + real list" where
  "broadcast2 f u v =
     (if length u = length v then Inr (map2 f u v)
      else if length u = 1 then Inr (map (f (hd u)) v)
      else if length v = 1 then Inr (map (\<lambda>x. f x (hd v)) u)
      else Inl ValueError)"

text \<open>\<^verbatim>\<open>a[:, k] = v\<close>: column \<open>k\<close> of every row is overwritten.\<close>

definition set_col :: "ndarray \<Rightarrow> nat \<Rightarrow> real list \<Rightarrow> py_error + ndarray" where
  "set_col a k v = (case a of
      Arr2 rows \<Rightarrow>
        (if k < ncols rows
         then bind_result (broadcast_to v (length rows))
                (\<lambda>w. Inr (Arr2 (map2 (\<lambda>r x. r[k := x]) rows w)))
         else Inl IndexError)
    | _ \<Rightarrow> Inl IndexError)"

subsection \<open>Files\<close>

text \<open>
  What a path holds: nothing, a path that cannot be opened at all, neither for reading nor
  for writing (a directory, a file without permissions), a file that cannot be opened for
  reading, text that is not a numeric table, or a numeric table (the rows of numbers left
  once comment lines, starting with \<^verbatim>\<open>@\<close> or \<^verbatim>\<open>#\<close>, and blank lines are
  dropped). A table in a file is the table of the numbers its text denotes.
\<close>

datatype entry = Absent | Locked | Unreadable | Garbage | Table "real list list"

type_synonym filesystem = "string \<Rightarrow> entry"

text \<open>
  \<^verbatim>\<open>np.loadtxt(fname, comments=['@', '#'])\<close>, with its default \<^verbatim>\<open>ndmin=0\<close>:
  rows of different lengths do not parse, and axes of length one are squeezed away, so a
  file of one row loads as a one-dimensional array, a file of one column too, and a single
  number as a zero-dimensional one. A file without data loads as an empty one-dimensional
  array.
\<close>

definition squeeze :: "real list list \<Rightarrow> ndarray" where
  "squeeze rows =
     (if length rows = 1
      then (if length (hd rows) = 1 then Arr0 (hd (hd rows)) else Arr1 (hd rows))
      else if length (hd rows) = 1 then Arr1 (map hd rows)
      else Arr2 rows)"

definition rectangular :: "real list list \<Rightarrow> bool" where
  "rectangular rows = list_all (\<lambda>r. r \<noteq> [] \<and> length r = ncols rows) rows"

definition parse_table :: "real list list \<Rightarrow> py_error + ndarray" where
  "parse_table rows =
     (if rows = [] then Inr (Arr1 [])
      else if rectangular rows then Inr (squeeze rows)
      else Inl ValueError)"

definition loadtxt :: "filesystem \<Rightarrow> string \<Rightarrow> py_error + ndarray" where
  "loadtxt fs fname = (case fs fname of
      Absent \<Rightarrow> Inl OSError
    | Locked \<Rightarrow> Inl OSError
    | Unreadable \<Rightarrow> Inl OSError
    | Garbage \<Rightarrow> Inl ValueError
    | Table rows \<Rightarrow> parse_table rows)"

text \<open>
  \<^verbatim>\<open>open(fname, 'w')\<close>: a path that cannot be opened raises OSError; any other path is
  created or truncated.
\<close>

definition open_for_writing :: "filesystem \<Rightarrow> string \<Rightarrow> py_error + unit" where
  "open_for_writing fs fname = (if fs fname = Locked then Inl OSError else Inr ())"

text \<open>
  The format \<^verbatim>\<open>'%16.8f'\<close> writes a value in decimal with 8 digits after the point,
  rounded to the nearest such number, a tie to the even last digit. The file then holds the
  rounded value.
\<close>

definition round_half_even :: "real \<Rightarrow> int" where
  "round_half_even v =
     (let f = \<lfloor>v\<rfloor> in
      if v - of_int f < 1 / 2 then f
      else if 1 / 2 < v - of_int f then f + 1
      else if even f then f else f + 1)"

definition format8 :: "real \<Rightarrow> real" where
  "format8 v = of_int (round_half_even (v * 10 ^ 8)) / 10 ^ 8"

text \<open>
  \<^verbatim>\<open>np.savetxt(fname, X, fmt='%16.8f')\<close>: the file is opened and created first; a
  one-dimensional array is written one value per row, and a zero-dimensional one is refused
  after the file was created. Every value is written in the format.
\<close>

definition savetxt :: "filesystem \<Rightarrow> string \<Rightarrow> ndarray \<Rightarrow> (py_error + unit) \<times> filesystem" where
  "savetxt fs fname X =
     bind_io (open_for_writing fs fname) fs (\<lambda>_.
       case X of
         Arr0 _ \<Rightarrow> (Inl ValueError, fs(fname := Table []))
       | Arr1 xs \<Rightarrow> (Inr (), fs(fname := Table (map (\<lambda>x. [format8 x]) xs)))
       | Arr2 rows \<Rightarrow> (Inr (), fs(fname := Table (map (map format8) rows))))"

section \<open>Quadrature Combiner (add\_data\_with\_error\_propagation.py)\<close>

text \<open>The two arrays the script holds; the statements of the script update this state.\<close>

record combiner_state =
  data1 :: ndarray
  data2 :: ndarray

text \<open>
  \<^verbatim>\<open>data1[:, 1] += data2[:, 1]\<close>: the column of \<open>data1\<close> is read, then the column of
  \<open>data2\<close>, the second is added in place (fitted to the first) and the sum is stored.
\<close>

definition add_second_columns :: "combiner_state \<Rightarrow> py_error + combiner_state" where
  "add_second_columns s =
     bind_result (col (data1 s) 1) (\<lambda>c1.
     bind_result (col (data2 s) 1) (\<lambda>c2.
     bind_result (broadcast_to c2 (length c1)) (\<lambda>c2'.
     bind_result (set_col (data1 s) 1 (map2 (+) c1 c2')) (\<lambda>d.
     Inr (s\<lparr>data1 := d\<rparr>)))))"

text \<open>\<^verbatim>\<open>data1[:, 2] = np.sqrt(data1[:, 2]**2 + data2[:, 2]**2)\<close>\<close>

definition combine_uncertainties :: "combiner_state \<Rightarrow> py_error + combiner_state" where
  "combine_uncertainties s =
     bind_result (col (data1 s) 2) (\<lambda>u1.
     bind_result (col (data2 s) 2) (\<lambda>u2.
     bind_result (broadcast2 (+) (map (\<lambda>x. x\<^sup>2) u1) (map (\<lambda>x. x\<^sup>2) u2)) (\<lambda>q.
     bind_result (set_col (data1 s) 2 (map sqrt q)) (\<lambda>d.
     Inr (s\<lparr>data1 := d\<rparr>)))))"

definition combine :: "combiner_state \<Rightarrow> py_error + combiner_state" where
  "combine s = bind_result (add_second_columns s) combine_uncertainties"

text \<open>
  The script: \<open>argv\<close> is \<^verbatim>\<open>sys.argv\<close>. The result is the exception that ended the run,
  or \<open>()\<close>, and the file system the run leaves behind.
\<close>

definition add_data_with_error_propagation ::
    "string list \<Rightarrow> filesystem \<Rightarrow> (py_error + unit) \<times> filesystem" where
  "add_data_with_error_propagation argv fs =
     bind_io (py_index argv 1) fs (\<lambda>file1.
     bind_io (py_index argv 2) fs (\<lambda>file2.
     bind_io (py_index argv 3) fs (\<lambda>output_file.
     bind_io (loadtxt fs file1) fs (\<lambda>d1.
     bind_io (loadtxt fs file2) fs (\<lambda>d2.
     bind_io (combine \<lparr>data1 = d1, data2 = d2\<rparr>) fs (\<lambda>s.
     savetxt fs output_file (data1 s)))))))"

text \<open>
  Two notions used to state what the script does, not taken from its code. The combined row
  of the specification: the row of the first table with the sum in column 1 and the root of
  the sum of squares in column 2. And the frame of an update of a table: the same rows, of
  the same lengths, with every entry outside the columns \<open>K\<close> as it was.
\<close>

definition combined_row :: "real list \<Rightarrow> real list \<Rightarrow> real list" where
  "combined_row r1 r2 = r1[1 := r1 ! 1 + r2 ! 1, 2 := sqrt ((r1 ! 2)\<^sup>2 + (r2 ! 2)\<^sup>2)]"

definition unchanged_outside :: "nat set \<Rightarrow> real list list \<Rightarrow> real list list \<Rightarrow> bool" where
  "unchanged_outside K rows rows' \<longleftrightarrow>
     length rows' = length rows \<and>
     (\<forall>i<length rows. length (rows' ! i) = length (rows ! i) \<and>
        (\<forall>j. j \<notin> K \<longrightarrow> rows' ! i ! j = rows ! i ! j))"

section \<open>Work Integrator (py\_compute\_work.py)\<close>

subsection \<open>Peak detection: \<^verbatim>\<open>scipy.signal.find_peaks(x, prominence=30)\<close>\<close>

text \<open>
  The local maxima of \<open>x\<close>, as SciPy's \<^verbatim>\<open>_local_maxima_1d\<close> finds them: the first
  and the last sample are never maxima; a sample above its left neighbour starts a plateau,
  \<open>look_ahead\<close> runs to the next sample that differs (or to the last one), and the plateau
  is a maximum when that sample is lower: its midpoint is recorded and the scan goes on
  behind the plateau.
\<close>

function look_ahead :: "real list \<Rightarrow> nat \<Rightarrow> nat \<Rightarrow> nat" where
  "look_ahead x i i_ahead =
     (if i_ahead < length x - 1 \<and> x ! i_ahead = x ! i
      then look_ahead x i (i_ahead + 1)
      else i_ahead)"
  by pat_completeness auto
termination
  by (relation "measure (\<lambda>(x, i, i_ahead). length x - i_ahead)") auto

declare look_ahead.simps [simp del]

lemma look_ahead_ge: "i_ahead \<le> look_ahead x i i_ahead"
proof (induction x i i_ahead rule: look_ahead.induct)
  case (1 x i i_ahead)
  show ?case
  proof (cases "i_ahead < length x - 1 \<and> x ! i_ahead = x ! i")
    case True
    with "1.IH" have "i_ahead + 1 \<le> look_ahead x i (i_ahead + 1)" by simp
    with True show ?thesis by (subst look_ahead.simps) simp
  next
    case False
    then show ?thesis by (subst look_ahead.simps) auto
  qed
qed

function local_maxima_from :: "real list \<Rightarrow> nat \<Rightarrow> nat list" where
  "local_maxima_from x i =
     (if i < length x - 1
      then (if x ! (i - 1) < x ! i
            then (let i_ahead = look_ahead x i (i + 1) in
                  if x ! i_ahead < x ! i
                  then ((i + (i_ahead - 1)) div 2) # local_maxima_from x (i_ahead + 1)
                  else local_maxima_from x (i + 1))
            else local_maxima_from x (i + 1))
      else [])"
  by pat_completeness auto
termination
proof (relation "measure (\<lambda>(x, i). length x - i)", goal_cases)
  case 1
  show ?case by simp
next
  case (2 x i i_ahead)
  have "i + 1 \<le> look_ahead x i (i + 1)" by (rule look_ahead_ge)
  with 2 show ?case by simp
next
  case (3 x i i_ahead)
  then show ?case by simp
next
  case (4 x i)
  then show ?case by simp
qed

declare local_maxima_from.simps [simp del]

definition local_maxima_1d :: "real list \<Rightarrow> nat list" where
  "local_maxima_1d x = local_maxima_from x 1"

text \<open>
  The prominence of a peak, as \<^verbatim>\<open>_peak_prominences\<close> computes it without a window:
  the lowest sample on each side before a sample higher than the peak (or the end of the
  signal) is met; the prominence is the height of the peak above the higher of the two. The
  left scan counts down and stops below index 0: its counter here is the index plus one.
\<close>

fun left_min_loop :: "real list \<Rightarrow> nat \<Rightarrow> nat \<Rightarrow> real \<Rightarrow> real" where
  "left_min_loop x peak 0 left_min = left_min"
| "left_min_loop x peak (Suc i) left_min =
     (if x ! i \<le> x ! peak
      then left_min_loop x peak i (if x ! i < left_min then x ! i else left_min)
      else left_min)"

function right_min_loop :: "real list \<Rightarrow> nat \<Rightarrow> nat \<Rightarrow> real \<Rightarrow> real" where
  "right_min_loop x peak i right_min =
     (if i < length x \<and> x ! i \<le> x ! peak
      then right_min_loop x peak (i + 1) (if x ! i < right_min then x ! i else right_min)
      else right_min)"
  by pat_completeness auto
termination
  by (relation "measure (\<lambda>(x, peak, i, right_min). length x - i)") auto

declare right_min_loop.simps [simp del]

definition peak_prominence :: "real list \<Rightarrow> nat \<Rightarrow> real" where
  "peak_prominence x peak =
     x ! peak - max (left_min_loop x peak (Suc peak) (x ! peak))
                    (right_min_loop x peak peak (x ! peak))"

text \<open>The peaks kept are the local maxima whose prominence is at least the bound.\<close>

definition find_peaks :: "real list \<Rightarrow> real \<Rightarrow> nat list" where
  "find_peaks x prominence =
     filter (\<lambda>peak. prominence \<le> peak_prominence x peak) (local_maxima_1d x)"

subsection \<open>The peak test in words\<close>

text \<open>
  What \<^verbatim>\<open>find_peaks\<close> documents, stated without its loops and compared with them
  below. A local maximum is the middle (rounded down) of a plateau: a run of equal samples
  strictly inside the signal whose two neighbours are both lower.
\<close>

definition plateau :: "real list \<Rightarrow> nat \<Rightarrow> nat \<Rightarrow> bool" where
  "plateau x l r \<longleftrightarrow>
     0 < l \<and> l \<le> r \<and> r + 1 < length x \<and> x ! (l - 1) < x ! l
     \<and> (\<forall>k. l \<le> k \<and> k \<le> r \<longrightarrow> x ! k = x ! l) \<and> x ! (r + 1) < x ! l"

definition is_local_maximum :: "real list \<Rightarrow> nat \<Rightarrow> bool" where
  "is_local_maximum x m \<longleftrightarrow> (\<exists>l r. plateau x l r \<and> m = (l + r) div 2)"

text \<open>
  The prominence of a sample: from the sample a horizontal line is extended to the left and
  to the right until it meets a higher sample or the end of the signal; the lowest sample
  of each side is taken, and the prominence is the height of the sample above the higher of
  the two.
\<close>

definition left_window :: "real list \<Rightarrow> nat \<Rightarrow> nat set" where
  "left_window x p = {k. k \<le> p \<and> (\<forall>j. k \<le> j \<and> j \<le> p \<longrightarrow> x ! j \<le> x ! p)}"

definition right_window :: "real list \<Rightarrow> nat \<Rightarrow> nat set" where
  "right_window x p = {k. p \<le> k \<and> k < length x \<and> (\<forall>j. p \<le> j \<and> j \<le> k \<longrightarrow> x ! j \<le> x ! p)}"

definition prominence :: "real list \<Rightarrow> nat \<Rightarrow> real" where
  "prominence x p =
     x ! p - max (Min ((!) x ` left_window x p)) (Min ((!) x ` right_window x p))"

text \<open>An index passes the test when it is a local maximum of prominence at least 30.\<close>

definition prominent_local_maximum :: "real list \<Rightarrow> nat \<Rightarrow> bool" where
  "prominent_local_maximum x i \<longleftrightarrow> is_local_maximum x i \<and> 30 \<le> prominence x i"

subsection \<open>\<^verbatim>\<open>np.argmax\<close>, slices and \<^verbatim>\<open>np.trapz\<close>\<close>

text \<open>
  \<^verbatim>\<open>np.argmax(a)\<close> without an axis: the position, in the flattened array (row after
  row), of the first occurrence of the greatest element; an empty array is refused.
\<close>

definition flatten :: "ndarray \<Rightarrow> real list" where
  "flatten a = (case a of Arr0 v \<Rightarrow> [v] | Arr1 xs \<Rightarrow> xs | Arr2 rows \<Rightarrow> concat rows)"

fun argmax_loop :: "real list \<Rightarrow> nat \<Rightarrow> real \<Rightarrow> nat \<Rightarrow> nat" where
  "argmax_loop [] i mp mi = mi"
| "argmax_loop (v # vs) i mp mi =
     (if mp < v then argmax_loop vs (i + 1) v i else argmax_loop vs (i + 1) mp mi)"

definition np_argmax :: "ndarray \<Rightarrow> py_error + nat" where
  "np_argmax a = (case flatten a of
      [] \<Rightarrow> Inl ValueError
    | v # vs \<Rightarrow> Inr (argmax_loop vs 1 v 0))"

text \<open>\<^verbatim>\<open>a[:k, j]\<close>: column \<open>j\<close> of the first \<open>k\<close> rows (of all rows when there are fewer).\<close>

definition slice_col :: "ndarray \<Rightarrow> nat \<Rightarrow> nat \<Rightarrow> py_error + real list" where
  "slice_col a k j = (case a of
      Arr2 rows \<Rightarrow> (if j < ncols rows then Inr (map (\<lambda>r. r ! j) (take k rows)) else Inl IndexError)
    | _ \<Rightarrow> Inl IndexError)"

text \<open>
  \<^verbatim>\<open>np.trapz(y, x)\<close> on one-dimensional arrays:
  \<^verbatim>\<open>(diff(x) * (y[1:] + y[:-1]) / 2.0).sum()\<close>, the product under broadcasting.
  The sum is the exact one: on float64 the script gets it up to rounding, and exactly when
  every intermediate result is a float64, as for small integers and their halves.
\<close>

definition np_diff :: "real list \<Rightarrow> real list" where
  "np_diff x = map2 (-) (tl x) (butlast x)"

definition trapz :: "real list \<Rightarrow> real list \<Rightarrow> py_error + real" where
  "trapz y x =
     bind_result (broadcast2 (*) (np_diff x) (map2 (+) (tl y) (butlast y)))
       (\<lambda>p. Inr (sum_list (map (\<lambda>v. v / 2) p)))"

subsection \<open>The script\<close>

definition max_force_index :: "ndarray \<Rightarrow> py_error + nat" where
  "max_force_index gaussian_denoised_data =
     bind_result (col gaussian_denoised_data 1) (\<lambda>gd_force.
     py_index (find_peaks gd_force 30) 0)"

definition force_up_to_max :: "ndarray \<Rightarrow> py_error + real list" where
  "force_up_to_max force_data =
     bind_result (np_argmax force_data) (\<lambda>k. slice_col force_data k 1)"

definition gd_force_up_to_max :: "ndarray \<Rightarrow> nat \<Rightarrow> py_error + real list" where
  "gd_force_up_to_max gaussian_denoised_data k = slice_col gaussian_denoised_data k 1"

definition gd_virtual_positions :: "ndarray \<Rightarrow> nat \<Rightarrow> py_error + real list" where
  "gd_virtual_positions gaussian_denoised_data k = slice_col gaussian_denoised_data k 0"

definition sim_positions :: "ndarray \<Rightarrow> nat \<Rightarrow> py_error + real list" where
  "sim_positions position_data k = slice_col position_data k 1"

text \<open>The two work values \<open>(work_at_sim_positions, work_at_gd_positions)\<close>.\<close>

definition work_performed :: "ndarray \<Rightarrow> ndarray \<Rightarrow> ndarray \<Rightarrow> py_error + real \<times> real" where
  "work_performed gaussian_denoised_data force_data position_data =
     bind_result (max_force_index gaussian_denoised_data) (\<lambda>k.
     bind_result (force_up_to_max force_data) (\<lambda>f.
     bind_result (gd_force_up_to_max gaussian_denoised_data k) (\<lambda>gf.
     bind_result (gd_virtual_positions gaussian_denoised_data k) (\<lambda>gx.
     bind_result (sim_positions position_data k) (\<lambda>sx.
     bind_result (trapz f sx) (\<lambda>work_at_sim_positions.
     bind_result (trapz gf gx) (\<lambda>work_at_gd_positions.
     Inr (work_at_sim_positions, work_at_gd_positions))))))))"

text \<open>
  The end of the script, lines 53 to 60: the first work value is printed, then the first
  file is opened and written, then the second. \<^verbatim>\<open>print(w, file=f)\<close> writes the one
  number, in full, as the only row. An output file that cannot be opened ends the run
  there, with what was printed and written before.
\<close>

definition write_work ::
    "filesystem \<Rightarrow> real \<Rightarrow> real \<Rightarrow> (py_error + unit) \<times> filesystem \<times> real list" where
  "write_work fs work_at_sim_positions work_at_gd_positions =
     (let printed = [work_at_sim_positions] in
      bind_io (open_for_writing fs ''work_performed.xvg'') (fs, printed) (\<lambda>_.
        let fs1 = fs(''work_performed.xvg'' := Table [[work_at_sim_positions]]) in
        bind_io (open_for_writing fs1 ''work_performed_gd_positions.xvg'') (fs1, printed) (\<lambda>_.
          (Inr (),
           fs1(''work_performed_gd_positions.xvg'' := Table [[work_at_gd_positions]]),
           printed))))"

text \<open>
  A run: the exception or \<open>()\<close>, the file system left behind, and the numbers printed to
  standard output.
\<close>

definition py_compute_work ::
    "string list \<Rightarrow> filesystem \<Rightarrow> (py_error + unit) \<times> filesystem \<times> real list" where
  "py_compute_work argv fs =
     bind_io (py_index argv 1) (fs, []) (\<lambda>gd_file.
     bind_io (loadtxt fs gd_file) (fs, []) (\<lambda>gaussian_denoised_data.
     bind_io (py_index argv 2) (fs, []) (\<lambda>f_file.
     bind_io (loadtxt fs f_file) (fs, []) (\<lambda>force_data.
     bind_io (py_index argv 3) (fs, []) (\<lambda>x_file.
     bind_io (loadtxt fs x_file) (fs, []) (\<lambda>position_data.
     bind_io (work_performed gaussian_denoised_data force_data position_data) (fs, [])
       (\<lambda>(work_at_sim_positions, work_at_gd_positions).
          write_work fs work_at_sim_positions work_at_gd_positions)))))))"

section \<open>Contact Counter (py\_calc\_contact\_count.py)\<close>

text \<open>
  MDAnalysis is the script's collaborator. Of a universe the script uses the frames of the
  trajectory, each with its time, its box and the coordinates of every atom; an atom group is
  the list of its atoms. What the library computes is a parameter of the model: opening a
  universe and resolving a selection (either may raise; a selection that matches nothing
  resolves to the empty group) and the periodic distance of two points in a box.
\<close>

type_synonym vec3 = "real \<times> real \<times> real"

record frame =
  time :: real
  dimensions :: "real list"
  positions :: "nat \<Rightarrow> vec3"

record universe =
  trajectory :: "frame list"

record mdanalysis =
  Universe :: "string \<Rightarrow> string \<Rightarrow> py_error + universe"
  select_atoms :: "universe \<Rightarrow> string \<Rightarrow> py_error + nat list"
  distance :: "real list \<Rightarrow> vec3 \<Rightarrow> vec3 \<Rightarrow> real"

text \<open>
  \<^verbatim>\<open>distances.distance_array(reference, configuration, box=...)\<close>: one row per
  reference point, one entry per configuration point; defined for empty groups too.
\<close>

definition distance_array ::
    "mdanalysis \<Rightarrow> vec3 list \<Rightarrow> vec3 list \<Rightarrow> real list \<Rightarrow> real list list" where
  "distance_array lib reference configuration box =
     map (\<lambda>p. map (\<lambda>q. distance lib box p q) configuration) reference"

text \<open>
  \<^verbatim>\<open>np.where(condition)[0]\<close> for a two-dimensional condition: the row index of every true entry,
  row after row.
\<close>

definition where_rows :: "bool list list \<Rightarrow> nat list" where
  "where_rows condition =
     concat (map (\<lambda>(i, row). map (\<lambda>_. i) (filter (\<lambda>b. b) row)) (enumerate 0 condition))"

definition num_group :: "mdanalysis \<Rightarrow> nat list \<Rightarrow> nat list \<Rightarrow> real \<Rightarrow> frame \<Rightarrow> int" where
  "num_group lib group1 group2 distance_threshold ts =
     int (length (where_rows (map (map (\<lambda>d. d < distance_threshold))
       (distance_array lib (map (positions ts) group1) (map (positions ts) group2)
          (dimensions ts)))))"

text \<open>The body of the loop over the trajectory: the record appended for the frame \<open>ts\<close>.\<close>

definition frame_record ::
    "mdanalysis \<Rightarrow> nat list \<Rightarrow> nat list \<Rightarrow> real \<Rightarrow> frame \<Rightarrow> real \<times> int" where
  "frame_record lib group1 group2 distance_threshold ts =
     (let count_group = 0;
          n = num_group lib group1 group2 distance_threshold ts;
          count_group = (if n > 0 then n else count_group)
      in (time ts, count_group))"

definition analyze_vdw_contacts ::
    "mdanalysis \<Rightarrow> string \<Rightarrow> string \<Rightarrow> real \<Rightarrow> string \<Rightarrow> string \<Rightarrow> py_error + (real \<times> int) list" where
  "analyze_vdw_contacts lib atom_group1 atom_group2 distance_threshold topology_file trajectory_file =
     bind_result (Universe lib topology_file trajectory_file) (\<lambda>univ.
     bind_result (select_atoms lib univ atom_group1) (\<lambda>group1.
     bind_result (select_atoms lib univ atom_group2) (\<lambda>group2.
     Inr (map (frame_record lib group1 group2 distance_threshold) (trajectory univ)))))"

text \<open>
  The script's main block. A line of standard output is the usage message or a record;
  \<open>py_float\<close> is Python's \<^verbatim>\<open>float\<close> on a string. \<^verbatim>\<open>sys.exit(1)\<close> ends the run
  with SystemExit.
\<close>

datatype line = Usage | Contact real int

definition py_calc_contact_count ::
    "mdanalysis \<Rightarrow> (string \<Rightarrow> py_error + real) \<Rightarrow> string list \<Rightarrow> (py_error + unit) \<times> line list" where
  "py_calc_contact_count lib py_float argv =
     (if length argv \<noteq> 6 then (Inl SystemExit, [Usage])
      else bind_io (py_float (argv ! 3)) [] (\<lambda>distance_threshold.
           bind_io (analyze_vdw_contacts lib (argv ! 1) (argv ! 2) distance_threshold
                      (argv ! 4) (argv ! 5)) [] (\<lambda>results.
           (Inr (), map (\<lambda>(t, count_group). Contact t count_group) results))))"

section \<open>Concrete inputs\<close>

text \<open>
  A universe of two frames and two atoms, atom 0 at the origin and atom 1 on the first axis,
  at 3 in the first frame and at 10 in the second; the distance is taken along that axis.
  The selections \<open>first\<close> and \<open>second\<close> resolve to one atom each, any other selection
  to no atom.
\<close>

definition example_frames :: "frame list" where
  "example_frames =
     [\<lparr>time = 0, dimensions = [], positions = (\<lambda>a. if a = 0 then (0, 0, 0) else (3, 0, 0))\<rparr>,
      \<lparr>time = 1, dimensions = [], positions = (\<lambda>a. if a = 0 then (0, 0, 0) else (10, 0, 0))\<rparr>]"

definition example_lib :: mdanalysis where
  "example_lib =
     \<lparr>Universe = (\<lambda>topology_file trajectory_file. Inr \<lparr>trajectory = example_frames\<rparr>),
      select_atoms = (\<lambda>univ s. Inr (if s = ''first'' then [0] else if s = ''second'' then [1] else [])),
      distance = (\<lambda>box p q. \<bar>fst p - fst q\<bar>)\<rparr>"

definition example_float :: "string \<Rightarrow> py_error + real" where
  "example_float s = (if s = ''5'' then Inr 5 else Inl ValueError)"

text \<open>
  Two tables of two rows and four columns, files holding them, and files of one row. The
  first table holds 1/1024 = 0.0009765625 and 3/1024 = 0.0029296875, numbers of ten decimals.
\<close>

definition example_A :: "real list list" where
  "example_A = [[1 / 1024, 1, 3, 3 / 1024], [1, 2, 6, 7]]"

definition example_B :: "real list list" where
  "example_B = [[5, 3, 4, 2], [6, 4, 8, 9]]"

definition example_files :: filesystem where
  "example_files = (\<lambda>p. Absent)(''a.xvg'' := Table example_A, ''b.xvg'' := Table example_B)"

definition one_row_files :: filesystem where
  "one_row_files = (\<lambda>p. Absent)(''a.xvg'' := Table [[0, 1, 3]], ''b.xvg'' := Table [[5, 3, 4]])"

text \<open>
  Tables for the Work Integrator: a raw force table (time, force), a denoised table whose
  force column [0, 10, 40, 10, 0] has one peak of prominence 40, and one whose force column
  [0, 10, 20, 10, 0] has a peak of prominence 20 only.
\<close>

definition example_force_table :: "real list list" where
  "example_force_table = [[0, 5], [1, 7], [2, 3]]"

definition example_gd_table :: "real list list" where
  "example_gd_table = [[0, 0], [1, 10], [2, 40], [3, 10], [4, 0]]"

definition example_flat_table :: "real list list" where
  "example_flat_table = [[0, 0], [1, 10], [2, 20], [3, 10], [4, 0]]"

definition example_work_files :: filesystem where
  "example_work_files = (\<lambda>p. Absent)
     (''gd.xvg'' := Table example_gd_table, ''flat.xvg'' := Table example_flat_table,
      ''f.xvg'' := Table example_force_table, ''x.xvg'' := Table example_force_table)"



section \<open>Steps that may raise\<close>

lemma bind_result_Inr [simp]: "bind_result (Inr x) f = f x"
  by (simp add: bind_result_def)

lemma bind_result_Inl [simp]: "bind_result (Inl e) f = Inl e"
  by (simp add: bind_result_def)

lemma bind_io_Inr [simp]: "bind_io (Inr x) s f = f x"
  by (simp add: bind_io_def)

lemma bind_io_Inl [simp]: "bind_io (Inl e) s f = (Inl e, s)"
  by (simp add: bind_io_def)

lemma bind_result_eq_Inr:
  "bind_result m f = Inr y \<longleftrightarrow> (\<exists>x. m = Inr x \<and> f x = Inr y)"
  by (cases m) simp_all

lemma bind_io_eq_Inr:
  "bind_io m s f = (Inr y, s') \<longleftrightarrow> (\<exists>x. m = Inr x \<and> f x = (Inr y, s'))"
  by (cases m) simp_all


section \<open>Properties of the Quadrature Combiner\<close>

lemma col_Arr2: "k < ncols rows \<Longrightarrow> col (Arr2 rows) k = Inr (map (\<lambda>r. r ! k) rows)"
  by (simp add: col_def)

lemma map2_update_map:
  "length A = length B \<Longrightarrow>
   map2 (\<lambda>r x. r[k := x]) A (map2 f (map g A) (map h B)) = map2 (\<lambda>a b. a[k := f (g a) (h b)]) A B"
  by (induction A B rule: list_induct2) auto

lemma ncols_map2_update:
  "length A = length B \<Longrightarrow> ncols (map2 (\<lambda>a b. a[k := f a b]) A B) = ncols A"
  by (cases A; cases B) (simp_all add: ncols_def)

lemma add_second_columns_Arr2:
  assumes "length A = length B" "1 < ncols A" "1 < ncols B"
  shows "add_second_columns \<lparr>data1 = Arr2 A, data2 = Arr2 B\<rparr> =
     Inr \<lparr>data1 = Arr2 (map2 (\<lambda>a b. a[1 := a ! 1 + b ! 1]) A B), data2 = Arr2 B\<rparr>"
  using assms
  by (simp add: add_second_columns_def col_Arr2 broadcast_to_def set_col_def map2_update_map)

lemma combine_uncertainties_Arr2:
  assumes "length A = length B" "2 < ncols A" "2 < ncols B"
  shows "combine_uncertainties \<lparr>data1 = Arr2 A, data2 = Arr2 B\<rparr> =
     Inr \<lparr>data1 = Arr2 (map2 (\<lambda>a b. a[2 := sqrt ((a ! 2)\<^sup>2 + (b ! 2)\<^sup>2)]) A B), data2 = Arr2 B\<rparr>"
proof -
  have "map2 (\<lambda>r x. r[2 := x]) A (map sqrt (map2 (+) (map (\<lambda>x. x\<^sup>2) (map (\<lambda>r. r ! 2) A)) (map (\<lambda>x. x\<^sup>2) (map (\<lambda>r. r ! 2) B))))
     = map2 (\<lambda>a b. a[2 := sqrt ((a ! 2)\<^sup>2 + (b ! 2)\<^sup>2)]) A B"
    using assms(1) by (induction A B rule: list_induct2) auto
  then show ?thesis using assms
    by (simp add: combine_uncertainties_def col_Arr2 broadcast2_def broadcast_to_def set_col_def)
qed

text \<open>
  On two-dimensional arrays of the same number of rows, with at least three columns, the two
  statements of the script succeed and rewrite every row of \<open>data1\<close> as \<open>combined_row\<close>
  says.
\<close>

lemma combine_Arr2:
  assumes "length A = length B" "2 < ncols A" "2 < ncols B"
  shows "combine \<lparr>data1 = Arr2 A, data2 = Arr2 B\<rparr> =
     Inr \<lparr>data1 = Arr2 (map2 combined_row A B), data2 = Arr2 B\<rparr>"
proof -
  let ?A1 = "map2 (\<lambda>a b. a[1 := a ! 1 + b ! 1]) A B"
  have len: "length ?A1 = length B" using assms(1) by simp
  have nc: "2 < ncols ?A1" using assms(1,2) by (simp add: ncols_map2_update)
  have "map2 (\<lambda>a b. a[2 := sqrt ((a ! 2)\<^sup>2 + (b ! 2)\<^sup>2)]) ?A1 B = map2 combined_row A B"
    using assms(1) by (induction A B rule: list_induct2) (auto simp: combined_row_def)
  then show ?thesis
    using assms add_second_columns_Arr2 [of A B] combine_uncertainties_Arr2 [OF len nc assms(3)]
    by (simp add: combine_def)
qed

lemma combine_not_2d:
  "(\<forall>rows. data1 s \<noteq> Arr2 rows) \<Longrightarrow> combine s = Inl IndexError"
  by (cases "data1 s") (simp_all add: combine_def add_second_columns_def col_def)

lemma rectangularD: "rectangular rows \<Longrightarrow> r \<in> set rows \<Longrightarrow> length r = ncols rows"
  by (simp add: rectangular_def list_all_iff)

lemma loadtxt_Arr2:
  assumes "fs f = Table A" "rectangular A" "2 \<le> length A" "2 \<le> ncols A"
  shows "loadtxt fs f = Inr (Arr2 A)"
proof -
  from assms(3) obtain r rs where A: "A = r # rs" by (cases A) auto
  with assms(4) have "length (hd A) \<noteq> 1" by (simp add: ncols_def)
  with assms A show ?thesis by (auto simp: loadtxt_def parse_table_def squeeze_def)
qed

lemma loadtxt_one_row:
  assumes "fs f = Table [r]" "2 \<le> length r"
  shows "loadtxt fs f = Inr (Arr1 r)"
  using assms by (auto simp: loadtxt_def parse_table_def squeeze_def rectangular_def ncols_def)

lemma savetxt_Arr2:
  "fs fname \<noteq> Locked \<Longrightarrow>
   savetxt fs fname (Arr2 rows) = (Inr (), fs(fname := Table (map (map format8) rows)))"
  by (simp add: savetxt_def open_for_writing_def)

lemma round_half_even_of_int: "round_half_even (of_int n) = n"
  by (simp add: round_half_even_def)

text \<open>A number of at most 8 decimals is written as it is.\<close>

lemma format8_decimal: "format8 (of_int n / 10 ^ 8) = of_int n / 10 ^ 8"
  by (simp add: format8_def round_half_even_of_int)

lemma format8_of_int: "format8 (of_int n) = of_int n"
proof -
  have "of_int n * (10 ^ 8 :: real) = of_int (n * 10 ^ 8)" by simp
  then have "round_half_even (of_int n * 10 ^ 8) = n * 10 ^ 8"
    by (simp only: round_half_even_of_int)
  then show ?thesis by (simp add: format8_def)
qed

lemma format8_numeral [simp]: "format8 (numeral k) = numeral k" "format8 0 = 0" "format8 1 = 1"
  using format8_of_int [of "numeral k"] format8_of_int [of 0] format8_of_int [of 1] by simp_all

lemma column_written:
  "\<forall>r\<in>set rows. k < length r \<Longrightarrow>
   map (\<lambda>r. r ! k) (map (map format8) rows) = map format8 (map (\<lambda>r. r ! k) rows)"
  by (induction rows) simp_all

text \<open>The run on two files of at least two rows each.\<close>

lemma combiner_run_rows:
  assumes "3 < length argv"
    and "fs (argv ! 1) = Table A" and "fs (argv ! 2) = Table B"
    and "rectangular A" and "rectangular B"
    and "3 \<le> ncols A" and "3 \<le> ncols B"
    and "length A = length B" and "2 \<le> length A"
    and "fs (argv ! 3) \<noteq> Locked"
  shows "add_data_with_error_propagation argv fs =
     (Inr (), fs(argv ! 3 := Table (map (map format8) (map2 combined_row A B))))"
proof -
  have l1: "loadtxt fs (argv ! 1) = Inr (Arr2 A)"
    using assms by (intro loadtxt_Arr2) auto
  have l2: "loadtxt fs (argv ! 2) = Inr (Arr2 B)"
    using assms by (intro loadtxt_Arr2) auto
  have c: "combine \<lparr>data1 = Arr2 A, data2 = Arr2 B\<rparr> =
     Inr \<lparr>data1 = Arr2 (map2 combined_row A B), data2 = Arr2 B\<rparr>"
    using assms by (intro combine_Arr2) auto
  have w: "savetxt fs (argv ! 3) (Arr2 (map2 combined_row A B)) =
     (Inr (), fs(argv ! 3 := Table (map (map format8) (map2 combined_row A B))))"
    using assms(10) by (rule savetxt_Arr2)
  have "add_data_with_error_propagation argv fs
      = savetxt fs (argv ! 3) (Arr2 (map2 combined_row A B))"
    using assms(1) l1 l2 c
    by (simp add: add_data_with_error_propagation_def py_index_def)
  with w show ?thesis by (simp only:)
qed

text \<open>The run on two files of one row each: the first statement raises IndexError.\<close>

lemma combiner_run_one_row:
  assumes "3 < length argv"
    and "fs (argv ! 1) = Table [r1]" and "fs (argv ! 2) = Table [r2]"
    and "2 \<le> length r1" and "2 \<le> length r2"
  shows "add_data_with_error_propagation argv fs = (Inl IndexError, fs)"
proof -
  have l1: "loadtxt fs (argv ! 1) = Inr (Arr1 r1)"
    using assms by (intro loadtxt_one_row) auto
  have l2: "loadtxt fs (argv ! 2) = Inr (Arr1 r2)"
    using assms by (intro loadtxt_one_row) auto
  have c: "combine \<lparr>data1 = Arr1 r1, data2 = Arr1 r2\<rparr> = Inl IndexError"
    by (rule combine_not_2d) simp
  show ?thesis
    using assms(1) l1 l2 c
    by (simp add: add_data_with_error_propagation_def py_index_def)
qed

lemma column_combined_rows:
  assumes "length A = length B"
    and "\<forall>r\<in>set A. 2 < length r"
  shows "map (\<lambda>r. r ! 0) (map2 combined_row A B) = map (\<lambda>r. r ! 0) A"
    and "map (\<lambda>r. r ! 1) (map2 combined_row A B) = map2 (\<lambda>a b. a ! 1 + b ! 1) A B"
    and "map (\<lambda>r. r ! 2) (map2 combined_row A B) = map2 (\<lambda>a b. sqrt ((a ! 2)\<^sup>2 + (b ! 2)\<^sup>2)) A B"
  using assms by (induction A B rule: list_induct2) (auto simp: combined_row_def)

lemma length_combined_row: "length (combined_row a b) = length a"
  by (simp add: combined_row_def)

lemma written_columns:
  assumes "length A = length B"
    and "\<forall>r\<in>set A. 2 < length r"
  shows "map (\<lambda>r. r ! 0) (map (map format8) (map2 combined_row A B))
      = map format8 (map (\<lambda>r. r ! 0) A)"
    and "map (\<lambda>r. r ! 1) (map (map format8) (map2 combined_row A B))
      = map format8 (map2 (\<lambda>a b. a ! 1 + b ! 1) A B)"
    and "map (\<lambda>r. r ! 2) (map (map format8) (map2 combined_row A B))
      = map format8 (map2 (\<lambda>a b. sqrt ((a ! 2)\<^sup>2 + (b ! 2)\<^sup>2)) A B)"
proof -
  have len: "\<forall>r\<in>set (map2 combined_row A B). 2 < length r"
    using assms by (induction A B rule: list_induct2) (auto simp: length_combined_row)
  then have l: "\<forall>r\<in>set (map2 combined_row A B). 0 < length r"
    "\<forall>r\<in>set (map2 combined_row A B). 1 < length r" by auto
  show "map (\<lambda>r. r ! 0) (map (map format8) (map2 combined_row A B))
      = map format8 (map (\<lambda>r. r ! 0) A)"
    unfolding column_written [OF l(1)] column_combined_rows(1) [OF assms] ..
  show "map (\<lambda>r. r ! 1) (map (map format8) (map2 combined_row A B))
      = map format8 (map2 (\<lambda>a b. a ! 1 + b ! 1) A B)"
    unfolding column_written [OF l(2)] column_combined_rows(2) [OF assms] ..
  show "map (\<lambda>r. r ! 2) (map (map format8) (map2 combined_row A B))
      = map format8 (map2 (\<lambda>a b. sqrt ((a ! 2)\<^sup>2 + (b ! 2)\<^sup>2)) A B)"
    unfolding column_written [OF len] column_combined_rows(3) [OF assms] ..
qed

lemma map2_commute:
  assumes "length A = length B" and "\<And>a b. f a b = f b a"
  shows "map2 f A B = map2 f B A"
  using assms(1) by (induction A B rule: list_induct2) (auto simp: assms(2))

lemma unchanged_outside_trans:
  "unchanged_outside K rows rows' \<Longrightarrow> unchanged_outside L rows' rows''
     \<Longrightarrow> unchanged_outside (K \<union> L) rows rows''"
  by (simp add: unchanged_outside_def)

lemma unchanged_outside_update:
  "length w = length rows \<Longrightarrow> unchanged_outside {k} rows (map2 (\<lambda>r x. r[k := x]) rows w)"
  by (simp add: unchanged_outside_def)

lemma broadcast_to_length: "broadcast_to v n = Inr w \<Longrightarrow> length w = n"
  by (auto simp: broadcast_to_def split: if_splits)

lemma set_col_frame:
  assumes "set_col a k v = Inr a'"
  shows "\<exists>rows rows'. a = Arr2 rows \<and> a' = Arr2 rows' \<and> unchanged_outside {k} rows rows'"
proof (cases a)
  case (Arr2 rows)
  with assms obtain w where w: "broadcast_to v (length rows) = Inr w"
    and a': "a' = Arr2 (map2 (\<lambda>r x. r[k := x]) rows w)"
    by (auto simp: set_col_def bind_result_eq_Inr split: if_splits)
  from w have "length w = length rows" by (rule broadcast_to_length)
  then have "unchanged_outside {k} rows (map2 (\<lambda>r x. r[k := x]) rows w)"
    by (rule unchanged_outside_update)
  with Arr2 a' show ?thesis by blast
qed (use assms in \<open>simp_all add: set_col_def\<close>)

lemma add_second_columns_frame:
  assumes "add_second_columns s = Inr s'"
  shows "data2 s' = data2 s \<and>
    (\<exists>rows rows'. data1 s = Arr2 rows \<and> data1 s' = Arr2 rows' \<and> unchanged_outside {1} rows rows')"
proof -
  from assms obtain c d where "set_col (data1 s) 1 c = Inr d" and "s' = s\<lparr>data1 := d\<rparr>"
    by (auto simp: add_second_columns_def bind_result_eq_Inr)
  with set_col_frame [of "data1 s" 1 c d] show ?thesis by auto
qed

lemma combine_uncertainties_frame:
  assumes "combine_uncertainties s = Inr s'"
  shows "data2 s' = data2 s \<and>
    (\<exists>rows rows'. data1 s = Arr2 rows \<and> data1 s' = Arr2 rows' \<and> unchanged_outside {2} rows rows')"
proof -
  from assms obtain c d where "set_col (data1 s) 2 c = Inr d" and "s' = s\<lparr>data1 := d\<rparr>"
    by (auto simp: combine_uncertainties_def bind_result_eq_Inr)
  with set_col_frame [of "data1 s" 2 c d] show ?thesis by auto
qed

lemma combine_frame:
  assumes "combine s = Inr s'"
  shows "data2 s' = data2 s \<and>
    (\<exists>rows rows'. data1 s = Arr2 rows \<and> data1 s' = Arr2 rows' \<and> unchanged_outside {1, 2} rows rows')"
proof -
  from assms obtain t where t: "add_second_columns s = Inr t" and s': "combine_uncertainties t = Inr s'"
    by (auto simp: combine_def bind_result_eq_Inr)
  from add_second_columns_frame [OF t] obtain rows rows1
    where 1: "data2 t = data2 s" "data1 s = Arr2 rows" "data1 t = Arr2 rows1"
      "unchanged_outside {1} rows rows1" by blast
  from combine_uncertainties_frame [OF s'] obtain rows1' rows2
    where 2: "data2 s' = data2 t" "data1 t = Arr2 rows1'" "data1 s' = Arr2 rows2"
      "unchanged_outside {2} rows1' rows2" by blast
  from 1 2 have "rows1' = rows1" by simp
  with 1(4) have a: "unchanged_outside {1} rows rows1'" by simp
  have "unchanged_outside ({1} \<union> {2}) rows rows2"
    using a 2(4) by (rule unchanged_outside_trans)
  moreover have "{1} \<union> {2} = {1, 2::nat}" by auto
  ultimately have "unchanged_outside {1, 2} rows rows2" by (simp only:)
  with 1 2 show ?thesis by simp
qed

lemma squeeze_Arr2: "squeeze rows = Arr2 rows' \<Longrightarrow> rows' = rows"
  by (auto simp: squeeze_def split: if_splits)

lemma loadtxt_Arr2_inv: "loadtxt fs f = Inr (Arr2 rows) \<Longrightarrow> fs f = Table rows"
  by (cases "fs f") (auto simp: loadtxt_def parse_table_def split: if_splits dest: squeeze_Arr2)

lemma combiner_success:
  assumes "add_data_with_error_propagation argv fs = (Inr (), fs')"
  shows "\<exists>A B out. fs (argv ! 1) = Table A \<and> fs (argv ! 2) = Table B
      \<and> combine \<lparr>data1 = Arr2 A, data2 = Arr2 B\<rparr> = Inr \<lparr>data1 = Arr2 out, data2 = Arr2 B\<rparr>
      \<and> fs' = fs(argv ! 3 := Table (map (map format8) out))"
proof -
  from assms obtain d1 d2 s
    where i: "3 < length argv"
      and l1: "loadtxt fs (argv ! 1) = Inr d1" and l2: "loadtxt fs (argv ! 2) = Inr d2"
      and c: "combine \<lparr>data1 = d1, data2 = d2\<rparr> = Inr s"
      and w: "savetxt fs (argv ! 3) (data1 s) = (Inr (), fs')"
    by (auto simp: add_data_with_error_propagation_def bind_io_eq_Inr py_index_def split: if_splits)
  from combine_frame [OF c] obtain A out where d1: "d1 = Arr2 A" and out: "data1 s = Arr2 out"
    and d2: "data2 s = d2" by auto
  have "\<exists>B. d2 = Arr2 B"
  proof (rule ccontr)
    assume "\<not> ?thesis"
    then have "col d2 1 = Inl IndexError" by (cases d2) (simp_all add: col_def)
    then have "\<exists>e. add_second_columns \<lparr>data1 = d1, data2 = d2\<rparr> = Inl e"
      by (cases "col d1 1") (simp_all add: add_second_columns_def)
    with c show False by (auto simp: combine_def)
  qed
  then obtain B where B: "d2 = Arr2 B" ..
  from out d2 B have s: "s = \<lparr>data1 = Arr2 out, data2 = Arr2 B\<rparr>" by (cases s) simp
  from w out have "fs' = fs(argv ! 3 := Table (map (map format8) out))"
    by (auto simp: savetxt_def bind_io_eq_Inr)
  with l1 l2 c d1 B s show ?thesis
    by (auto dest: loadtxt_Arr2_inv)
qed

text \<open>
  For files of at least two rows and an output path that can be opened, the output table
  has the rows of the first input, and it holds, each in the output format, column 0 of the
  first input, the sum in column 1 and the root of the sum of squares in column 2.
\<close>

lemma combiner_output_rows:
  assumes "3 < length argv"
    and "fs (argv ! 1) = Table A" and "fs (argv ! 2) = Table B"
    and "rectangular A" and "rectangular B"
    and "3 \<le> ncols A" and "3 \<le> ncols B"
    and "length A = length B" and "2 \<le> length A"
    and "fs (argv ! 3) \<noteq> Locked"
  shows "\<exists>out. add_data_with_error_propagation argv fs = (Inr (), fs(argv ! 3 := Table out))
    \<and> length out = length A
    \<and> map (\<lambda>r. r ! 0) out = map format8 (map (\<lambda>r. r ! 0) A)
    \<and> map (\<lambda>r. r ! 1) out = map format8 (map2 (\<lambda>a b. a ! 1 + b ! 1) A B)
    \<and> map (\<lambda>r. r ! 2) out = map format8 (map2 (\<lambda>a b. sqrt ((a ! 2)\<^sup>2 + (b ! 2)\<^sup>2)) A B)"
proof (intro exI conjI)
  have A: "\<forall>r\<in>set A. 2 < length r"
    using assms(4,6) by (auto dest: rectangularD)
  note w = written_columns [OF assms(8) A]
  show "add_data_with_error_propagation argv fs =
      (Inr (), fs(argv ! 3 := Table (map (map format8) (map2 combined_row A B))))"
    by (rule combiner_run_rows [OF assms])
  show "length (map (map format8) (map2 combined_row A B)) = length A"
    using assms(8) by simp
  show "map (\<lambda>r. r ! 0) (map (map format8) (map2 combined_row A B))
      = map format8 (map (\<lambda>r. r ! 0) A)"
    by (rule w(1))
  show "map (\<lambda>r. r ! 1) (map (map format8) (map2 combined_row A B))
      = map format8 (map2 (\<lambda>a b. a ! 1 + b ! 1) A B)"
    by (rule w(2))
  show "map (\<lambda>r. r ! 2) (map (map format8) (map2 combined_row A B))
      = map format8 (map2 (\<lambda>a b. sqrt ((a ! 2)\<^sup>2 + (b ! 2)\<^sup>2)) A B)"
    by (rule w(3))
qed

lemma sqrt_25: "sqrt 25 = 5"
  by (rule real_sqrt_unique) simp_all

lemma sqrt_100: "sqrt 100 = 10"
  by (rule real_sqrt_unique) simp_all

lemma example_tables:
  "rectangular example_A" "rectangular example_B" "3 \<le> ncols example_A" "3 \<le> ncols example_B"
  "length example_A = length example_B" "2 \<le> length example_A"
  by (simp_all add: example_A_def example_B_def rectangular_def ncols_def)

lemma example_combined:
  "map2 combined_row example_A example_B = [[1 / 1024, 4, 5, 3 / 1024], [1, 6, 10, 7]]"
  "map2 combined_row example_B example_A = [[5, 4, 5, 2], [6, 6, 10, 9]]"
  by (simp_all add: example_A_def example_B_def combined_row_def sqrt_25 sqrt_100)

lemma example_format8:
  "format8 (1 / 1024) = 97656 / 10 ^ 8" "format8 (3 / 1024) = 292969 / 10 ^ 8"
  by (simp_all add: format8_def round_half_even_def Let_def)

lemma example_files_at:
  "example_files ''a.xvg'' = Table example_A" "example_files ''b.xvg'' = Table example_B"
  "example_files ''out.xvg'' \<noteq> Locked"
  by (simp_all add: example_files_def)

lemma example_runs:
  "add_data_with_error_propagation [''combine'', ''a.xvg'', ''b.xvg'', ''out.xvg''] example_files
     = (Inr (), example_files(''out.xvg'' :=
          Table [[97656 / 10 ^ 8, 4, 5, 292969 / 10 ^ 8], [1, 6, 10, 7]]))"
  "add_data_with_error_propagation [''combine'', ''b.xvg'', ''a.xvg'', ''out.xvg''] example_files
     = (Inr (), example_files(''out.xvg'' := Table [[5, 4, 5, 2], [6, 6, 10, 9]]))"
proof -
  show "add_data_with_error_propagation [''combine'', ''a.xvg'', ''b.xvg'', ''out.xvg''] example_files
     = (Inr (), example_files(''out.xvg'' :=
          Table [[97656 / 10 ^ 8, 4, 5, 292969 / 10 ^ 8], [1, 6, 10, 7]]))"
    using combiner_run_rows [of "[''combine'', ''a.xvg'', ''b.xvg'', ''out.xvg'']" example_files
        example_A example_B] example_tables example_files_at
    by (simp add: example_combined example_format8)
  show "add_data_with_error_propagation [''combine'', ''b.xvg'', ''a.xvg'', ''out.xvg''] example_files
     = (Inr (), example_files(''out.xvg'' := Table [[5, 4, 5, 2], [6, 6, 10, 9]]))"
    using combiner_run_rows [of "[''combine'', ''b.xvg'', ''a.xvg'', ''out.xvg'']" example_files
        example_B example_A] example_tables example_files_at
    by (simp add: example_combined)
qed

text \<open>
  C2, at the input where the program departs from it: two files of one row and three columns
  each. The loader returns one-dimensional arrays for them, the first statement of the script
  indexes a second axis and raises IndexError, and no output is written.
\<close>

theorem combiner_single_row_raises:
  "add_data_with_error_propagation [''combine'', ''a.xvg'', ''b.xvg'', ''out.xvg''] one_row_files
     = (Inl IndexError, one_row_files)"
  by (rule combiner_run_one_row [where ?r1.0 = "[0, 1, 3]" and ?r2.0 = "[5, 3, 4]"])
     (simp_all add: one_row_files_def)

text \<open>
  C6, as the program behaves. Let \<open>A\<close> and \<open>B\<close> be tables of equal row count, of at least
  two rows and at least three columns, and let the output path be one that can be opened.
  The run on \<open>(A, B)\<close> and the run on \<open>(B, A)\<close> both write an output; the two outputs
  agree on column 1 and on column 2; and column 0 of each is column 0 of its own first input
  as the output format \<^verbatim>\<open>'%16.8f'\<close> writes it, rounded to 8 decimals.
\<close>

theorem combiner_commutes_on_columns_1_2:
  assumes "rectangular A" and "rectangular B"
    and "3 \<le> ncols A" and "3 \<le> ncols B"
    and "length A = length B" and "2 \<le> length A"
    and "fs file1 = Table A" and "fs file2 = Table B"
    and "fs output_file \<noteq> Locked"
  shows "\<exists>out1 out2.
        add_data_with_error_propagation [prog, file1, file2, output_file] fs
          = (Inr (), fs(output_file := Table out1))
      \<and> add_data_with_error_propagation [prog, file2, file1, output_file] fs
          = (Inr (), fs(output_file := Table out2))
      \<and> map (\<lambda>r. r ! 1) out1 = map (\<lambda>r. r ! 1) out2
      \<and> map (\<lambda>r. r ! 2) out1 = map (\<lambda>r. r ! 2) out2
      \<and> map (\<lambda>r. r ! 0) out1 = map format8 (map (\<lambda>r. r ! 0) A)
      \<and> map (\<lambda>r. r ! 0) out2 = map format8 (map (\<lambda>r. r ! 0) B)"
proof -
  let ?argv1 = "[prog, file1, file2, output_file]"
  let ?argv2 = "[prog, file2, file1, output_file]"
  let ?out1 = "map (map format8) (map2 combined_row A B)"
  let ?out2 = "map (map format8) (map2 combined_row B A)"
  have A: "\<forall>r\<in>set A. 2 < length r" using assms(1,3) by (auto dest: rectangularD)
  have B: "\<forall>r\<in>set B. 2 < length r" using assms(2,4) by (auto dest: rectangularD)
  have len': "length B = length A" using assms(5) by simp
  have r1: "add_data_with_error_propagation ?argv1 fs = (Inr (), fs(?argv1 ! 3 := Table ?out1))"
    using assms by (intro combiner_run_rows) simp_all
  have r2: "add_data_with_error_propagation ?argv2 fs = (Inr (), fs(?argv2 ! 3 := Table ?out2))"
    using assms by (intro combiner_run_rows) simp_all
  have c1: "map2 (\<lambda>a b. a ! 1 + b ! 1) A B = map2 (\<lambda>a b. a ! 1 + b ! 1) B A"
    using assms(5) by (rule map2_commute) simp
  have c2: "map2 (\<lambda>a b. sqrt ((a ! 2)\<^sup>2 + (b ! 2)\<^sup>2)) A B
      = map2 (\<lambda>a b. sqrt ((a ! 2)\<^sup>2 + (b ! 2)\<^sup>2)) B A"
    using assms(5) by (rule map2_commute) (simp add: add.commute)
  have e1: "map (\<lambda>r. r ! 1) ?out1 = map (\<lambda>r. r ! 1) ?out2"
    using written_columns(2) [OF assms(5) A] written_columns(2) [OF len' B] c1
    by (simp only:)
  have e2: "map (\<lambda>r. r ! 2) ?out1 = map (\<lambda>r. r ! 2) ?out2"
    using written_columns(3) [OF assms(5) A] written_columns(3) [OF len' B] c2
    by (simp only:)
  have e0a: "map (\<lambda>r. r ! 0) ?out1 = map format8 (map (\<lambda>r. r ! 0) A)"
    using assms(5) A by (rule written_columns(1))
  have e0b: "map (\<lambda>r. r ! 0) ?out2 = map format8 (map (\<lambda>r. r ! 0) B)"
    using len' B by (rule written_columns(1))
  have r1': "add_data_with_error_propagation ?argv1 fs = (Inr (), fs(output_file := Table ?out1))"
    using r1 by simp
  have r2': "add_data_with_error_propagation ?argv2 fs = (Inr (), fs(output_file := Table ?out2))"
    using r2 by simp
  from r1' r2' e1 e2 e0a e0b show ?thesis by blast
qed

theorem combiner_commutes_on_columns_1_2_witness:
  "add_data_with_error_propagation [''combine'', ''a.xvg'', ''b.xvg'', ''out.xvg''] example_files
       = (Inr (), example_files(''out.xvg'' :=
            Table [[97656 / 10 ^ 8, 4, 5, 292969 / 10 ^ 8], [1, 6, 10, 7]]))
   \<and> add_data_with_error_propagation [''combine'', ''b.xvg'', ''a.xvg'', ''out.xvg''] example_files
       = (Inr (), example_files(''out.xvg'' := Table [[5, 4, 5, 2], [6, 6, 10, 9]]))
   \<and> map format8 (map (\<lambda>r. r ! 0) example_A) = [97656 / 10 ^ 8, 1]
   \<and> map format8 (map (\<lambda>r. r ! 0) example_B) = [5, 6]"
proof -
  from combiner_commutes_on_columns_1_2 [OF example_tables example_files_at,
      of "''combine''"]
  obtain out1 out2 where
        o1: "add_data_with_error_propagation [''combine'', ''a.xvg'', ''b.xvg'', ''out.xvg''] example_files
          = (Inr (), example_files(''out.xvg'' := Table out1))"
    and o2: "add_data_with_error_propagation [''combine'', ''b.xvg'', ''a.xvg'', ''out.xvg''] example_files
          = (Inr (), example_files(''out.xvg'' := Table out2))"
    and a: "map (\<lambda>r. r ! 0) out1 = map format8 (map (\<lambda>r. r ! 0) example_A)"
    and b: "map (\<lambda>r. r ! 0) out2 = map format8 (map (\<lambda>r. r ! 0) example_B)"
    by (elim exE conjE)
  from o1 example_runs(1)
  have "(example_files(''out.xvg'' := Table out1)) ''out.xvg''
      = (example_files(''out.xvg'' := Table [[97656 / 10 ^ 8, 4, 5, 292969 / 10 ^ 8], [1, 6, 10, 7]]))
          ''out.xvg''"
    by (simp only: prod.inject)
  then have out1: "out1 = [[97656 / 10 ^ 8, 4, 5, 292969 / 10 ^ 8], [1, 6, 10, 7]]"
    by (simp only: fun_upd_same entry.inject)
  from o2 example_runs(2)
  have "(example_files(''out.xvg'' := Table out2)) ''out.xvg''
      = (example_files(''out.xvg'' := Table [[5, 4, 5, 2], [6, 6, 10, 9]])) ''out.xvg''"
    by (simp only: prod.inject)
  then have out2: "out2 = [[5, 4, 5, 2], [6, 6, 10, 9]]"
    by (simp only: fun_upd_same entry.inject)
  from a out1 have "map format8 (map (\<lambda>r. r ! 0) example_A) = [97656 / 10 ^ 8, 1]" by simp
  moreover from b out2 have "map format8 (map (\<lambda>r. r ! 0) example_B) = [5, 6]" by simp
  ultimately show ?thesis using example_runs by (simp only: simp_thms)
qed

text \<open>
  The claim C6 as stated fails on this input: the first table has 1/1024 = 0.0009765625 in
  column 0 of its first row, and the output holds 0.00097656 there.
\<close>

theorem combiner_column_0_counterexample:
  "example_files ''a.xvg'' = Table example_A \<and> example_files ''b.xvg'' = Table example_B
   \<and> length example_A = length example_B \<and> ncols example_A = 4 \<and> ncols example_B = 4
   \<and> example_A ! 0 ! 0 = 1 / 1024
   \<and> add_data_with_error_propagation [''combine'', ''a.xvg'', ''b.xvg'', ''out.xvg''] example_files
       = (Inr (), example_files(''out.xvg'' :=
            Table [[97656 / 10 ^ 8, 4, 5, 292969 / 10 ^ 8], [1, 6, 10, 7]]))
   \<and> [[97656 / 10 ^ 8, 4, 5, 292969 / 10 ^ 8], [1, 6, 10, 7]] ! 0 ! 0 \<noteq> example_A ! 0 ! 0"
  using example_runs(1)
  by (simp add: example_files_def example_A_def example_B_def ncols_def)

text \<open>
  C10, as the program behaves. Whenever the run writes its output, the output is a table
  with the rows of the first input in which nothing but columns 1 and 2 was changed, written
  value by value in the format \<^verbatim>\<open>'%16.8f'\<close>: column 0 and every column from 3 on
  reach the file rounded to 8 decimals. No file but the output is touched, and the array of
  the second input is never modified by the two statements of the script.
\<close>

theorem combiner_changes_columns_1_2_only:
  "(add_data_with_error_propagation argv fs = (Inr (), fs') \<longrightarrow>
      (\<exists>A out. fs (argv ! 1) = Table A \<and> unchanged_outside {1, 2} A out
         \<and> fs' = fs(argv ! 3 := Table (map (map format8) out))))
   \<and> (combine s = Inr s' \<longrightarrow> data2 s' = data2 s)"
proof (intro conjI impI)
  assume "add_data_with_error_propagation argv fs = (Inr (), fs')"
  from combiner_success [OF this] obtain A B out
    where f: "fs (argv ! 1) = Table A" "fs' = fs(argv ! 3 := Table (map (map format8) out))"
      and c: "combine \<lparr>data1 = Arr2 A, data2 = Arr2 B\<rparr> = Inr \<lparr>data1 = Arr2 out, data2 = Arr2 B\<rparr>"
    by blast
  from combine_frame [OF c] have "unchanged_outside {1, 2} A out" by simp
  with f show "\<exists>A out. fs (argv ! 1) = Table A \<and> unchanged_outside {1, 2} A out
         \<and> fs' = fs(argv ! 3 := Table (map (map format8) out))" by blast
next
  assume "combine s = Inr s'"
  then show "data2 s' = data2 s" by (simp add: combine_frame)
qed

theorem combiner_changes_columns_1_2_only_witness:
  "add_data_with_error_propagation [''combine'', ''a.xvg'', ''b.xvg'', ''out.xvg''] example_files
       = (Inr (), example_files(''out.xvg'' :=
            Table [[97656 / 10 ^ 8, 4, 5, 292969 / 10 ^ 8], [1, 6, 10, 7]]))
   \<and> combine \<lparr>data1 = Arr2 example_A, data2 = Arr2 example_B\<rparr>
       = Inr \<lparr>data1 = Arr2 [[1 / 1024, 4, 5, 3 / 1024], [1, 6, 10, 7]], data2 = Arr2 example_B\<rparr>
   \<and> unchanged_outside {1, 2} example_A [[1 / 1024, 4, 5, 3 / 1024], [1, 6, 10, 7]]
   \<and> map (map format8) [[1 / 1024, 4, 5, 3 / 1024], [1, 6, 10, 7]]
       = [[97656 / 10 ^ 8, 4, 5, 292969 / 10 ^ 8], [1, 6, 10, 7]]
   \<and> (\<exists>out. unchanged_outside {1, 2} example_A out
         \<and> [[97656 / 10 ^ 8, 4, 5, 292969 / 10 ^ 8], [1, 6, 10, 7]] = map (map format8) out)"
proof -
  let ?s = "\<lparr>data1 = Arr2 example_A, data2 = Arr2 example_B\<rparr>"
  let ?s' = "\<lparr>data1 = Arr2 [[1 / 1024, 4, 5, 3 / 1024], [1, 6, 10, 7]], data2 = Arr2 example_B\<rparr>"
  let ?W = "[[97656 / 10 ^ 8, 4, 5, 292969 / 10 ^ 8], [1, 6, 10, 7 :: real]]"
  have c: "combine ?s = Inr ?s'"
    using combine_Arr2 [of example_A example_B] example_tables by (simp add: example_combined)
  have u: "unchanged_outside {1, 2} example_A [[1 / 1024, 4, 5, 3 / 1024], [1, 6, 10, 7]]"
    using combine_frame [OF c] by simp
  have w: "map (map format8) [[1 / 1024, 4, 5, 3 / 1024], [1, 6, 10, 7]] = ?W"
    by (simp add: example_format8)
  from combiner_changes_columns_1_2_only
    [of "[''combine'', ''a.xvg'', ''b.xvg'', ''out.xvg'']" example_files
        "example_files(''out.xvg'' := Table ?W)" ?s ?s'] example_runs(1) example_files_at(1)
  have "\<exists>A out. Table example_A = Table A \<and> unchanged_outside {1, 2} A out
      \<and> example_files(''out.xvg'' := Table ?W)
          = example_files(''out.xvg'' := Table (map (map format8) out))"
    by simp
  then obtain out where u': "unchanged_outside {1, 2} example_A out"
    and o: "example_files(''out.xvg'' := Table ?W)
          = example_files(''out.xvg'' := Table (map (map format8) out))"
    by auto
  from o have "(example_files(''out.xvg'' := Table ?W)) ''out.xvg''
        = (example_files(''out.xvg'' := Table (map (map format8) out))) ''out.xvg''"
    by (simp only:)
  then have m: "?W = map (map format8) out"
    by (simp only: fun_upd_same entry.inject)
  have e: "\<exists>out. unchanged_outside {1, 2} example_A out \<and> ?W = map (map format8) out"
  proof (intro exI conjI)
    show "unchanged_outside {1, 2} example_A out" by (rule u')
    show "?W = map (map format8) out" by (rule m)
  qed
  from example_runs(1) c u w e show ?thesis by (simp only: simp_thms)
qed

text \<open>
  The claim C10 as stated fails on this input: the first table has a fourth column, with
  3/1024 = 0.0029296875 in its first row, and the output holds 0.00292969 there.
\<close>

theorem combiner_column_3_counterexample:
  "example_files ''a.xvg'' = Table example_A \<and> example_files ''b.xvg'' = Table example_B
   \<and> length example_A = length example_B \<and> ncols example_A = 4 \<and> ncols example_B = 4
   \<and> example_A ! 0 ! 3 = 3 / 1024
   \<and> add_data_with_error_propagation [''combine'', ''a.xvg'', ''b.xvg'', ''out.xvg''] example_files
       = (Inr (), example_files(''out.xvg'' :=
            Table [[97656 / 10 ^ 8, 4, 5, 292969 / 10 ^ 8], [1, 6, 10, 7]]))
   \<and> [[97656 / 10 ^ 8, 4, 5, 292969 / 10 ^ 8], [1, 6, 10, 7]] ! 0 ! 3 \<noteq> example_A ! 0 ! 3"
  using example_runs(1)
  by (simp add: example_files_def example_A_def example_B_def ncols_def)

section \<open>Properties of the Contact Counter\<close>

lemma length_where_rows_enumerate:
  "length (concat (map (\<lambda>(i, row). map (\<lambda>_. i) (filter (\<lambda>b. b) row)) (enumerate n rows)))
     = length (filter (\<lambda>b. b) (concat rows))"
  by (induction rows arbitrary: n) simp_all

lemma length_where_rows: "length (where_rows c) = length (filter (\<lambda>b. b) (concat c))"
  unfolding where_rows_def by (rule length_where_rows_enumerate)

lemma filter_concat_map_map:
  "filter (\<lambda>b. b) (concat (map (map P) m)) = map P (filter P (concat m))"
  by (induction m) (simp_all add: filter_map comp_def)

text \<open>The raw count of a frame is the number of matrix entries below the threshold.\<close>

lemma num_group_eq:
  "num_group lib group1 group2 thr ts =
     int (length (filter (\<lambda>d. d < thr)
       (concat (distance_array lib (map (positions ts) group1) (map (positions ts) group2)
          (dimensions ts)))))"
  by (simp add: num_group_def length_where_rows filter_concat_map_map)

lemma length_concat_distance_array:
  "length (concat (distance_array lib P Q box)) = length P * length Q"
  by (induction P) (simp_all add: distance_array_def)

lemma num_group_bounds:
  "0 \<le> num_group lib group1 group2 thr ts \<and>
   num_group lib group1 group2 thr ts \<le> int (length group1) * int (length group2)"
proof -
  let ?m = "distance_array lib (map (positions ts) group1) (map (positions ts) group2) (dimensions ts)"
  have "length (filter (\<lambda>d. d < thr) (concat ?m)) \<le> length (concat ?m)"
    by (rule length_filter_le)
  also have "\<dots> = length group1 * length group2"
    by (simp add: length_concat_distance_array)
  finally have "int (length (filter (\<lambda>d. d < thr) (concat ?m))) \<le> int (length group1 * length group2)"
    by (simp only: of_nat_le_iff)
  then show ?thesis by (simp add: num_group_eq)
qed

lemma frame_record_eq:
  "frame_record lib group1 group2 thr ts = (time ts, num_group lib group1 group2 thr ts)"
proof -
  have "0 \<le> num_group lib group1 group2 thr ts" by (simp add: num_group_def)
  then show ?thesis by (auto simp: frame_record_def Let_def)
qed

lemma num_group_empty:
  "group1 = [] \<or> group2 = [] \<Longrightarrow> num_group lib group1 group2 thr ts = 0"
  using num_group_bounds [of lib group1 group2 thr ts] by auto

lemma analyze_vdw_contacts_resolved:
  assumes "Universe lib topology_file trajectory_file = Inr u"
    and "select_atoms lib u atom_group1 = Inr group1"
    and "select_atoms lib u atom_group2 = Inr group2"
  shows "analyze_vdw_contacts lib atom_group1 atom_group2 thr topology_file trajectory_file =
     Inr (map (\<lambda>ts. (time ts, num_group lib group1 group2 thr ts)) (trajectory u))"
  using assms by (simp add: analyze_vdw_contacts_def frame_record_eq)

lemma py_calc_contact_count_resolved:
  assumes "length argv = 6"
    and "py_float (argv ! 3) = Inr thr"
    and "Universe lib (argv ! 4) (argv ! 5) = Inr u"
    and "select_atoms lib u (argv ! 1) = Inr group1"
    and "select_atoms lib u (argv ! 2) = Inr group2"
  shows "py_calc_contact_count lib py_float argv =
     (Inr (), map (\<lambda>ts. Contact (time ts) (num_group lib group1 group2 thr ts)) (trajectory u))"
proof -
  have "analyze_vdw_contacts lib (argv ! 1) (argv ! 2) thr (argv ! 4) (argv ! 5) =
     Inr (map (\<lambda>ts. (time ts, num_group lib group1 group2 thr ts)) (trajectory u))"
    using assms(3-5) by (rule analyze_vdw_contacts_resolved)
  then show ?thesis
    using assms(1,2) by (simp add: py_calc_contact_count_def comp_def)
qed

lemma example_num_group:
  "num_group example_lib g1 g2 5 ts =
     int (length (filter (\<lambda>d. d < 5)
       (concat (map (\<lambda>p. map (\<lambda>q. \<bar>fst p - fst q\<bar>) (map (positions ts) g2)) (map (positions ts) g1)))))"
  by (simp add: num_group_eq distance_array_def example_lib_def)

text \<open>
  C4. For every trajectory the program emits exactly one record per frame, in frame order:
  the output is the list of frames mapped, frame by frame, to the record of the frame's time
  and the number of entries of the distance matrix of the two groups that are strictly below
  the threshold. A frame without such an entry has its record too, with count 0.
\<close>

theorem contact_counter_one_record_per_frame:
  assumes "length argv = 6"
    and "py_float (argv ! 3) = Inr thr"
    and "Universe lib (argv ! 4) (argv ! 5) = Inr u"
    and "select_atoms lib u (argv ! 1) = Inr group1"
    and "select_atoms lib u (argv ! 2) = Inr group2"
  shows "py_calc_contact_count lib py_float argv =
     (Inr (), map (\<lambda>ts. Contact (time ts)
        (int (length (filter (\<lambda>d. d < thr)
          (concat (distance_array lib (map (positions ts) group1) (map (positions ts) group2)
             (dimensions ts))))))) (trajectory u))
   \<and> length (snd (py_calc_contact_count lib py_float argv)) = length (trajectory u)"
proof -
  have "py_calc_contact_count lib py_float argv =
     (Inr (), map (\<lambda>ts. Contact (time ts) (num_group lib group1 group2 thr ts)) (trajectory u))"
    using assms by (rule py_calc_contact_count_resolved)
  then show ?thesis by (simp add: num_group_eq)
qed

theorem contact_counter_one_record_per_frame_witness:
  "py_calc_contact_count example_lib example_float
     [''contacts'', ''first'', ''second'', ''5'', ''run.tpr'', ''run.xtc'']
   = (Inr (), [Contact 0 1, Contact 1 0])"
  using contact_counter_one_record_per_frame [of
      "[''contacts'', ''first'', ''second'', ''5'', ''run.tpr'', ''run.xtc'']"
      example_float 5 example_lib "\<lparr>trajectory = example_frames\<rparr>" "[0]" "[1]"]
  by (simp add: example_lib_def example_float_def example_frames_def distance_array_def)

text \<open>
  C9. For every frame and every threshold the emitted count is the raw count of entries
  below the threshold (the guard on a positive raw count changes nothing), it is not
  negative and it is at most the number of pairs of an atom of the first group and an atom
  of the second.
\<close>

theorem contact_count_is_raw_count_and_bounded:
  "snd (frame_record lib group1 group2 distance_threshold ts)
     = num_group lib group1 group2 distance_threshold ts
   \<and> 0 \<le> snd (frame_record lib group1 group2 distance_threshold ts)
   \<and> snd (frame_record lib group1 group2 distance_threshold ts)
       \<le> int (length group1) * int (length group2)"
  using num_group_bounds [of lib group1 group2 distance_threshold ts]
  by (simp add: frame_record_eq)

theorem contact_count_is_raw_count_and_bounded_witness:
  "snd (frame_record example_lib [0] [1] 5 (example_frames ! 0)) = 1
   \<and> num_group example_lib [0] [1] 5 (example_frames ! 0) = 1"
  using contact_count_is_raw_count_and_bounded [of example_lib "[0]" "[1]" 5 "example_frames ! 0"]
  by (simp add: example_num_group example_frames_def)

text \<open>
  C3, as the program behaves. When the universe opens and both selections resolve, one of
  them to no atom, the run does not fail: it emits one record per frame, each with count 0.
  The program has no check of its own on the size of a group.
\<close>

theorem empty_selection_emits_zero_counts:
  assumes "length argv = 6"
    and "py_float (argv ! 3) = Inr thr"
    and "Universe lib (argv ! 4) (argv ! 5) = Inr u"
    and "select_atoms lib u (argv ! 1) = Inr group1"
    and "select_atoms lib u (argv ! 2) = Inr group2"
    and "group1 = [] \<or> group2 = []"
  shows "py_calc_contact_count lib py_float argv =
     (Inr (), map (\<lambda>ts. Contact (time ts) 0) (trajectory u))"
proof -
  have "py_calc_contact_count lib py_float argv =
     (Inr (), map (\<lambda>ts. Contact (time ts) (num_group lib group1 group2 thr ts)) (trajectory u))"
    using assms(1-5) by (rule py_calc_contact_count_resolved)
  then show ?thesis by (simp add: num_group_empty [OF assms(6)])
qed

theorem empty_selection_emits_zero_counts_witness:
  "py_calc_contact_count example_lib example_float
     [''contacts'', ''first'', ''nothing'', ''5'', ''run.tpr'', ''run.xtc'']
   = (Inr (), [Contact 0 0, Contact 1 0])"
  using empty_selection_emits_zero_counts [of
      "[''contacts'', ''first'', ''nothing'', ''5'', ''run.tpr'', ''run.xtc'']"
      example_float 5 example_lib "\<lparr>trajectory = example_frames\<rparr>" "[0]" "[]"]
  by (simp add: example_lib_def example_float_def example_frames_def)

text \<open>
  The claim C3 as stated fails on this input: the first selection resolves to no atom, and
  the run ends without an exception, with a record for each of the two frames.
\<close>

theorem empty_selection_counterexample:
  "select_atoms example_lib \<lparr>trajectory = example_frames\<rparr> ''nothing'' = Inr []
   \<and> fst (py_calc_contact_count example_lib example_float
        [''contacts'', ''nothing'', ''second'', ''5'', ''run.tpr'', ''run.xtc''])
       \<noteq> Inl SelectionError
   \<and> snd (py_calc_contact_count example_lib example_float
        [''contacts'', ''nothing'', ''second'', ''5'', ''run.tpr'', ''run.xtc''])
       = [Contact 0 0, Contact 1 0]"
  by (simp add: py_calc_contact_count_def analyze_vdw_contacts_def frame_record_def
      num_group_def where_rows_def distance_array_def example_lib_def example_float_def
      example_frames_def)

section \<open>Properties of the Work Integrator\<close>

lemma local_maxima_from_sorted:
  "sorted_wrt (<) (local_maxima_from x i) \<and> (\<forall>m\<in>set (local_maxima_from x i). i \<le> m)"
proof (induction x i rule: local_maxima_from.induct)
  case (1 x i)
  let ?a = "look_ahead x i (i + 1)"
  have a: "i + 1 \<le> ?a" by (rule look_ahead_ge)
  show ?case
  proof (cases "i < length x - 1")
    case False
    then show ?thesis by (subst (1 2) local_maxima_from.simps) simp
  next
    case in_range: True
    show ?thesis
    proof (cases "x ! (i - 1) < x ! i")
      case False
      with in_range "1.IH"(3) show ?thesis
        by (subst (1 2) local_maxima_from.simps) (auto simp: Let_def)
    next
      case rising: True
      show ?thesis
      proof (cases "x ! ?a < x ! i")
        case False
        with in_range rising "1.IH"(2) [OF in_range rising refl] show ?thesis
          by (subst (1 2) local_maxima_from.simps) (auto simp: Let_def)
      next
        case True
        from "1.IH"(1) [OF in_range rising refl True]
        have ih: "sorted_wrt (<) (local_maxima_from x (?a + 1))"
          "\<forall>m\<in>set (local_maxima_from x (?a + 1)). ?a + 1 \<le> m" by simp_all
        have mid: "i \<le> (i + (?a - 1)) div 2" "(i + (?a - 1)) div 2 < ?a + 1"
          using a by auto
        have eq: "local_maxima_from x i = ((i + (?a - 1)) div 2) # local_maxima_from x (?a + 1)"
          using in_range rising True by (subst local_maxima_from.simps) (simp add: Let_def)
        show ?thesis
          unfolding eq using ih mid by (auto simp del: One_nat_def)
      qed
    qed
  qed
qed

lemma hd_filter_sorted:
  assumes "sorted_wrt (<) xs" and "filter P xs = k # rest"
  shows "k \<in> set xs \<and> P k \<and> (\<forall>j\<in>set xs. P j \<longrightarrow> k \<le> (j::nat))"
  using assms
proof (induction xs)
  case Nil
  then show ?case by simp
next
  case (Cons a xs)
  show ?case
  proof (cases "P a")
    case True
    with Cons.prems show ?thesis by auto
  next
    case False
    with Cons show ?thesis by auto
  qed
qed

lemma find_peaks_example: "find_peaks [0, 10, 40, 10, 0] 30 = [2]"
proof -
  let ?x = "[0, 10, 40, 10, 0] :: real list"
  have la: "look_ahead ?x 1 2 = 2" "look_ahead ?x 2 3 = 3"
    by (subst look_ahead.simps, simp)+
  have lm4: "local_maxima_from ?x 4 = []"
    by (subst local_maxima_from.simps) simp
  have lm2: "local_maxima_from ?x 2 = [2]"
    by (subst local_maxima_from.simps) (simp add: la lm4 Let_def del: One_nat_def)
  have lm: "local_maxima_1d ?x = [2]"
    unfolding local_maxima_1d_def
    by (subst local_maxima_from.simps) (simp add: la lm2 Let_def del: One_nat_def)
  have r5: "right_min_loop ?x 2 5 0 = 0"
    by (subst right_min_loop.simps) simp
  have r4: "right_min_loop ?x 2 4 10 = 0"
    by (subst right_min_loop.simps) (simp add: r5)
  have r3: "right_min_loop ?x 2 3 40 = 0"
    by (subst right_min_loop.simps) (simp add: r4)
  have r: "right_min_loop ?x 2 2 40 = 0"
    by (subst right_min_loop.simps) (simp add: r3)
  have l: "left_min_loop ?x 2 (Suc 2) 40 = 0"
    by (simp add: numeral_2_eq_2)
  have "peak_prominence ?x 2 = 40"
    using l r by (simp add: peak_prominence_def)
  with lm show ?thesis by (simp add: find_peaks_def)
qed

lemma look_ahead_spec:
  assumes "a \<le> length x - 1"
  shows "a \<le> look_ahead x i a \<and> look_ahead x i a \<le> length x - 1
    \<and> (\<forall>k. a \<le> k \<and> k < look_ahead x i a \<longrightarrow> x ! k = x ! i)
    \<and> (look_ahead x i a < length x - 1 \<longrightarrow> x ! look_ahead x i a \<noteq> x ! i)"
  using assms
proof (induction x i a rule: look_ahead.induct)
  case (1 x i a)
  show ?case
  proof (cases "a < length x - 1 \<and> x ! a = x ! i")
    case True
    then have eq: "look_ahead x i a = look_ahead x i (a + 1)"
      by (subst look_ahead.simps) simp
    from True have "a + 1 \<le> length x - 1" by linarith
    from "1.IH" [OF True this]
    have ih1: "a + 1 \<le> look_ahead x i (a + 1)"
      and ih2: "look_ahead x i (a + 1) \<le> length x - 1"
      and ih3: "\<And>k. a + 1 \<le> k \<Longrightarrow> k < look_ahead x i (a + 1) \<Longrightarrow> x ! k = x ! i"
      and ih4: "look_ahead x i (a + 1) < length x - 1 \<longrightarrow> x ! look_ahead x i (a + 1) \<noteq> x ! i"
      by blast+
    have "x ! k = x ! i" if "a \<le> k" "k < look_ahead x i (a + 1)" for k
    proof (cases "k = a")
      case True
      with \<open>a < length x - 1 \<and> x ! a = x ! i\<close> show ?thesis by blast
    next
      case False
      with that(1) have "a + 1 \<le> k" by linarith
      then show ?thesis using that(2) by (rule ih3)
    qed
    moreover from ih1 have "a \<le> look_ahead x i (a + 1)" by linarith
    ultimately show ?thesis
      unfolding eq using ih2 ih4 by blast
  next
    case False
    then have eq: "look_ahead x i a = a"
      by (subst look_ahead.simps) auto
    have "\<forall>k. a \<le> k \<and> k < a \<longrightarrow> x ! k = x ! i" by (simp add: not_less [symmetric] del: not_less)
    moreover have "a < length x - 1 \<longrightarrow> x ! a \<noteq> x ! i" using False by blast
    ultimately show ?thesis unfolding eq using "1.prems" by blast
  qed
qed

lemma plateauD:
  assumes "plateau x l r"
  shows "0 < l" and "l \<le> r" and "r + 1 < length x" and "x ! (l - 1) < x ! l"
    and "\<And>k. l \<le> k \<Longrightarrow> k \<le> r \<Longrightarrow> x ! k = x ! l" and "x ! (r + 1) < x ! l"
  using assms unfolding plateau_def by blast+

lemma plateauI:
  assumes "0 < l" and "l \<le> r" and "r + 1 < length x" and "x ! (l - 1) < x ! l"
    and "\<And>k. l \<le> k \<Longrightarrow> k \<le> r \<Longrightarrow> x ! k = x ! l" and "x ! (r + 1) < x ! l"
  shows "plateau x l r"
  using assms unfolding plateau_def by blast

lemma plateau_right_unique:
  assumes "plateau x l r" and "plateau x l r'"
  shows "r = r'"
proof (rule ccontr)
  assume "r \<noteq> r'"
  then consider "r < r'" | "r' < r" by linarith
  then show False
  proof cases
    case 1
    then have "l \<le> r + 1" "r + 1 \<le> r'" using plateauD(2) [OF assms(1)] by linarith+
    then have "x ! (r + 1) = x ! l" by (rule plateauD(5) [OF assms(2)])
    with plateauD(6) [OF assms(1)] show False by linarith
  next
    case 2
    then have "l \<le> r' + 1" "r' + 1 \<le> r" using plateauD(2) [OF assms(2)] by linarith+
    then have "x ! (r' + 1) = x ! l" by (rule plateauD(5) [OF assms(1)])
    with plateauD(6) [OF assms(2)] show False by linarith
  qed
qed

lemma local_maxima_from_set:
  assumes "0 < i"
  shows "set (local_maxima_from x i) = {m. \<exists>l r. i \<le> l \<and> plateau x l r \<and> m = (l + r) div 2}"
  using assms
proof (induction x i rule: local_maxima_from.induct)
  case (1 x i)
  let ?n = "length x"
  let ?S = "\<lambda>i. {m. \<exists>l r. i \<le> l \<and> plateau x l r \<and> m = (l + r) div 2}"
  have no_plateau_step: "?S i = ?S (i + 1)" if "\<And>r. \<not> plateau x i r"
  proof -
    have "(i \<le> l \<and> plateau x l r \<and> P) \<longleftrightarrow> (i + 1 \<le> l \<and> plateau x l r \<and> P)" for l r P
    proof (cases "l = i")
      case True
      with that [of r] show ?thesis by blast
    next
      case False
      then have "i \<le> l \<longleftrightarrow> i + 1 \<le> l" by linarith
      then show ?thesis by blast
    qed
    then show ?thesis by (simp only:)
  qed
  show ?case
  proof (cases "i < ?n - 1")
    case False
    have "\<not> (i \<le> l \<and> plateau x l r \<and> m = (l + r) div 2)" for l r m
    proof
      assume h: "i \<le> l \<and> plateau x l r \<and> m = (l + r) div 2"
      then have "plateau x l r" by blast
      from plateauD(2,3) [OF this] h False show False by linarith
    qed
    then have "?S i = {}" by blast
    moreover have "local_maxima_from x i = []"
      using False by (subst local_maxima_from.simps) simp
    ultimately show ?thesis by simp
  next
    case in_range: True
    show ?thesis
    proof (cases "x ! (i - 1) < x ! i")
      case False
      have "\<not> plateau x i r" for r
        using plateauD(4) [of x i r] False by blast
      then have "?S i = ?S (i + 1)" by (rule no_plateau_step)
      moreover have "local_maxima_from x i = local_maxima_from x (i + 1)"
        using in_range False by (subst local_maxima_from.simps) simp
      moreover have "set (local_maxima_from x (i + 1)) = ?S (i + 1)"
        by (rule "1.IH"(3) [OF in_range False]) simp
      ultimately show ?thesis by (simp only:)
    next
      case rising: True
      let ?a = "look_ahead x i (i + 1)"
      from in_range have "i + 1 \<le> ?n - 1" by linarith
      from look_ahead_spec [OF this, of i]
      have a1: "i + 1 \<le> ?a" and a2: "?a \<le> ?n - 1"
        and a3: "\<And>k. i + 1 \<le> k \<Longrightarrow> k < ?a \<Longrightarrow> x ! k = x ! i"
        and a4: "?a < ?n - 1 \<Longrightarrow> x ! ?a \<noteq> x ! i" by blast+
      have flat: "x ! k = x ! i" if "i \<le> k" "k < ?a" for k
      proof (cases "k = i")
        case True
        then show ?thesis by (simp only:)
      next
        case False
        with that(1) have "i + 1 \<le> k" by linarith
        then show ?thesis using that(2) by (rule a3)
      qed
      show ?thesis
      proof (cases "x ! ?a < x ! i")
        case False
        have "\<not> plateau x i r" for r
        proof
          assume p: "plateau x i r"
          note r = plateauD [OF p]
          consider "r + 1 < ?a" | "r + 1 = ?a" | "?a \<le> r" by linarith
          then show False
          proof cases
            case 1
            moreover from r(2) have "i \<le> r + 1" by linarith
            ultimately have "x ! (r + 1) = x ! i" by (intro flat)
            with r(6) show False by linarith
          next
            case 2
            with r(6) False show False by (simp only:)
          next
            case 3
            from a1 have "i \<le> ?a" by linarith
            then have "x ! ?a = x ! i" using 3 by (rule r(5))
            moreover from 3 r(3) have "?a < ?n - 1" by linarith
            ultimately show False using a4 by blast
          qed
        qed
        then have "?S i = ?S (i + 1)" by (rule no_plateau_step)
        moreover have "local_maxima_from x i = local_maxima_from x (i + 1)"
          using in_range rising False by (subst local_maxima_from.simps) (simp add: Let_def)
        moreover have "set (local_maxima_from x (i + 1)) = ?S (i + 1)"
          by (rule "1.IH"(2) [OF in_range rising refl False]) simp
        ultimately show ?thesis by (simp only:)
      next
        case falling: True
        have p: "plateau x i (?a - 1)"
        proof (rule plateauI)
          show "0 < i" by (rule "1.prems")
          show "i \<le> ?a - 1" using a1 by linarith
          show "?a - 1 + 1 < ?n" using a1 a2 in_range by linarith
          show "x ! (i - 1) < x ! i" by (rule rising)
          show "x ! k = x ! i" if "i \<le> k" "k \<le> ?a - 1" for k
          proof -
            from that(2) a1 have "k < ?a" by linarith
            with that(1) show ?thesis by (rule flat)
          qed
          from a1 have "?a - 1 + 1 = ?a" by linarith
          with falling show "x ! (?a - 1 + 1) < x ! i" by (simp only:)
        qed
        have eq: "local_maxima_from x i = ((i + (?a - 1)) div 2) # local_maxima_from x (?a + 1)"
          using in_range rising falling by (subst local_maxima_from.simps) (simp add: Let_def)
        have ih: "set (local_maxima_from x (?a + 1)) = ?S (?a + 1)"
          by (rule "1.IH"(1) [OF in_range rising refl falling]) simp
        have none: "\<not> plateau x l r" if "i < l" "l \<le> ?a" for l r
        proof
          assume q: "plateau x l r"
          note d = plateauD [OF q]
          show False
          proof (cases "l = ?a")
            case True
            from a1 have "i \<le> ?a - 1" "?a - 1 < ?a" by linarith+
            then have "x ! (?a - 1) = x ! i" by (rule flat)
            moreover from d(4) True have "x ! (?a - 1) < x ! ?a" by (simp only:)
            ultimately show False using falling by linarith
          next
            case False
            with that have l: "i \<le> l" "l < ?a" "i \<le> l - 1" "l - 1 < ?a" by linarith+
            from l(1,2) have "x ! l = x ! i" by (rule flat)
            moreover from l(3,4) have "x ! (l - 1) = x ! i" by (rule flat)
            ultimately show False using d(4) by linarith
          qed
        qed
        have "?S i = insert ((i + (?a - 1)) div 2) (?S (?a + 1))"
        proof (intro set_eqI iffI)
          fix m assume "m \<in> ?S i"
          then obtain l r where lr: "i \<le> l" "plateau x l r" "m = (l + r) div 2" by blast
          show "m \<in> insert ((i + (?a - 1)) div 2) (?S (?a + 1))"
          proof (cases "l = i")
            case True
            with lr(2) have "plateau x i r" by (simp only:)
            then have "r = ?a - 1" using p by (rule plateau_right_unique)
            with True lr(3) show ?thesis by blast
          next
            case False
            with lr(1) have "i < l" by linarith
            have "\<not> l \<le> ?a" using none [OF \<open>i < l\<close>] lr(2) by blast
            then have "?a + 1 \<le> l" by linarith
            with lr(2,3) show ?thesis by blast
          qed
        next
          fix m assume "m \<in> insert ((i + (?a - 1)) div 2) (?S (?a + 1))"
          then consider "m = (i + (?a - 1)) div 2" | "m \<in> ?S (?a + 1)" by blast
          then show "m \<in> ?S i"
          proof cases
            case 1
            with p show ?thesis by blast
          next
            case 2
            then obtain l r where lr: "?a + 1 \<le> l" "plateau x l r" "m = (l + r) div 2" by blast
            from lr(1) a1 have "i \<le> l" by linarith
            with lr(2,3) show ?thesis by blast
          qed
        qed
        with eq ih show ?thesis by (simp only: list.set)
      qed
    qed
  qed
qed

lemma local_maxima_1d_iff: "m \<in> set (local_maxima_1d x) \<longleftrightarrow> is_local_maximum x m"
proof -
  have "set (local_maxima_1d x) = {m. \<exists>l r. 1 \<le> l \<and> plateau x l r \<and> m = (l + r) div 2}"
    unfolding local_maxima_1d_def by (rule local_maxima_from_set) simp
  moreover have "(\<exists>l r. 1 \<le> l \<and> plateau x l r \<and> m = (l + r) div 2) \<longleftrightarrow> is_local_maximum x m"
  proof -
    have "1 \<le> l" if "plateau x l r" for l r
      using plateauD(1) [OF that] by linarith
    then show ?thesis unfolding is_local_maximum_def by blast
  qed
  ultimately show ?thesis by blast
qed

lemma if_less_min: "(if a < m then a else m) = min a (m::real)"
  by (auto simp: min_def)

lemma left_min_loop_spec:
  assumes "c \<le> Suc p"
    and "\<forall>j. c \<le> j \<and> j \<le> p \<longrightarrow> x ! j \<le> x ! p"
    and "m = Min (insert (x ! p) ((!) x ` {c..p}))"
  shows "left_min_loop x p c m = Min ((!) x ` left_window x p)"
  using assms
proof (induction c arbitrary: m)
  case 0
  then have "left_window x p = {0..p}"
    by (auto simp: left_window_def)
  moreover have "insert (x ! p) ((!) x ` {0..p}) = (!) x ` {0..p}" by auto
  ultimately show ?case using 0 by simp
next
  case (Suc i)
  let ?B = "\<lambda>c. insert (x ! p) ((!) x ` {c..p})"
  from Suc.prems(1) have ip: "i \<le> p" by simp
  show ?case
  proof (cases "x ! i \<le> x ! p")
    case True
    have "{i..p} = insert i {Suc i..p}" using ip by auto
    then have "?B i = insert (x ! i) (?B (Suc i))" by auto
    then have "Min (?B i) = min (x ! i) (Min (?B (Suc i)))"
      by (simp only: Min_insert [of "?B (Suc i)" "x ! i"] finite_insert finite_imageI finite_atLeastAtMost
          insert_not_empty not_False_eq_True)
    then have m': "(if x ! i < m then x ! i else m) = Min (?B i)"
      unfolding if_less_min Suc.prems(3) by (rule sym)
    have inv: "\<forall>j. i \<le> j \<and> j \<le> p \<longrightarrow> x ! j \<le> x ! p"
    proof (intro allI impI)
      fix j assume "i \<le> j \<and> j \<le> p"
      then show "x ! j \<le> x ! p"
        using True Suc.prems(2) by (cases "j = i") auto
    qed
    have "left_min_loop x p (Suc i) m = left_min_loop x p i (if x ! i < m then x ! i else m)"
      using True by simp
    also have "\<dots> = Min ((!) x ` left_window x p)"
      using ip inv m' by (intro Suc.IH) auto
    finally show ?thesis .
  next
    case False
    then have "i \<noteq> p" by auto
    with ip have lt: "i < p" by simp
    have "left_window x p = {Suc i..p}"
    proof (intro set_eqI iffI)
      fix k assume k: "k \<in> left_window x p"
      then have "k \<le> p" and all: "\<forall>j. k \<le> j \<and> j \<le> p \<longrightarrow> x ! j \<le> x ! p"
        by (simp_all add: left_window_def)
      have "\<not> k \<le> i"
      proof
        assume "k \<le> i"
        with all ip have "x ! i \<le> x ! p" by blast
        with False show False by simp
      qed
      with \<open>k \<le> p\<close> show "k \<in> {Suc i..p}" by simp
    next
      fix k assume "k \<in> {Suc i..p}"
      then show "k \<in> left_window x p"
        using Suc.prems(2) by (auto simp: left_window_def)
    qed
    moreover have "?B (Suc i) = (!) x ` {Suc i..p}" using lt by auto
    ultimately show ?thesis using False Suc.prems(3) by simp
  qed
qed

lemma right_min_loop_spec:
  assumes "p < length x" and "p \<le> i" and "i \<le> length x"
    and "\<forall>j. p \<le> j \<and> j < i \<longrightarrow> x ! j \<le> x ! p"
    and "m = Min (insert (x ! p) ((!) x ` {p..<i}))"
  shows "right_min_loop x p i m = Min ((!) x ` right_window x p)"
  using assms
proof (induction x p i m rule: right_min_loop.induct)
  case (1 x p i m)
  let ?B = "\<lambda>c. insert (x ! p) ((!) x ` {p..<c})"
  show ?case
  proof (cases "i < length x \<and> x ! i \<le> x ! p")
    case True
    have "{p..<i + 1} = insert i {p..<i}" using "1.prems"(2) by auto
    then have "?B (i + 1) = insert (x ! i) (?B i)" by auto
    then have "Min (?B (i + 1)) = min (x ! i) (Min (?B i))"
      by (simp only: Min_insert [of "?B i" "x ! i"] finite_insert finite_imageI finite_atLeastLessThan
          insert_not_empty not_False_eq_True)
    then have m': "(if x ! i < m then x ! i else m) = Min (?B (i + 1))"
      unfolding if_less_min "1.prems"(5) by (rule sym)
    have inv: "\<forall>j. p \<le> j \<and> j < i + 1 \<longrightarrow> x ! j \<le> x ! p"
    proof (intro allI impI)
      fix j assume "p \<le> j \<and> j < i + 1"
      then show "x ! j \<le> x ! p"
        using True "1.prems"(4) by (cases "j = i") auto
    qed
    have "right_min_loop x p i m = right_min_loop x p (i + 1) (if x ! i < m then x ! i else m)"
      using True by (subst right_min_loop.simps) simp
    also have "\<dots> = Min ((!) x ` right_window x p)"
      using True "1.prems"(1,2) inv m' by (intro "1.IH") auto
    finally show ?thesis .
  next
    case False
    have eq: "right_min_loop x p i m = m"
      using False by (subst right_min_loop.simps) auto
    have "i \<noteq> p" using False "1.prems"(1) by auto
    with "1.prems"(2) have lt: "p < i" by simp
    have "right_window x p = {p..<i}"
    proof (intro set_eqI iffI)
      fix k assume k: "k \<in> right_window x p"
      then have "p \<le> k" "k < length x" and all: "\<forall>j. p \<le> j \<and> j \<le> k \<longrightarrow> x ! j \<le> x ! p"
        by (simp_all add: right_window_def)
      have "\<not> i \<le> k"
      proof
        assume "i \<le> k"
        with all "1.prems"(2) have "x ! i \<le> x ! p" by blast
        moreover from \<open>i \<le> k\<close> \<open>k < length x\<close> have "i < length x" by simp
        ultimately show False using False by simp
      qed
      with \<open>p \<le> k\<close> show "k \<in> {p..<i}" by simp
    next
      fix k assume "k \<in> {p..<i}"
      then show "k \<in> right_window x p"
        using "1.prems"(3,4) by (auto simp: right_window_def)
    qed
    moreover have "?B i = (!) x ` {p..<i}" using lt by auto
    ultimately show ?thesis using eq "1.prems"(5) by simp
  qed
qed

lemma peak_prominence_eq:
  assumes "p < length x"
  shows "peak_prominence x p = prominence x p"
proof -
  have "left_min_loop x p (Suc p) (x ! p) = Min ((!) x ` left_window x p)"
    by (rule left_min_loop_spec) auto
  moreover have "right_min_loop x p p (x ! p) = Min ((!) x ` right_window x p)"
    using assms by (intro right_min_loop_spec) auto
  ultimately show ?thesis by (simp add: peak_prominence_def prominence_def)
qed

lemma is_local_maximum_less_length:
  assumes "is_local_maximum x m"
  shows "m < length x"
proof -
  from assms obtain l r where p: "plateau x l r" and m: "m = (l + r) div 2"
    unfolding is_local_maximum_def by blast
  from plateauD(2,3) [OF p] m show ?thesis by linarith
qed

text \<open>\<^verbatim>\<open>find_peaks\<close> returns exactly the indices that pass the peak test.\<close>

lemma find_peaks_iff: "i \<in> set (find_peaks x 30) \<longleftrightarrow> prominent_local_maximum x i"
proof -
  have "i \<in> set (find_peaks x 30) \<longleftrightarrow> is_local_maximum x i \<and> 30 \<le> peak_prominence x i"
    by (simp add: find_peaks_def local_maxima_1d_iff)
  also have "\<dots> \<longleftrightarrow> is_local_maximum x i \<and> 30 \<le> prominence x i"
    using peak_prominence_eq [OF is_local_maximum_less_length, of x i] by auto
  finally show ?thesis by (simp add: prominent_local_maximum_def)
qed

lemma find_peaks_first:
  assumes "find_peaks x 30 = k # rest"
  shows "prominent_local_maximum x k \<and> (\<forall>j. prominent_local_maximum x j \<longrightarrow> k \<le> j)"
proof -
  have s: "sorted_wrt (<) (local_maxima_1d x)"
    using local_maxima_from_sorted [of x 1] by (simp add: local_maxima_1d_def)
  from assms have f: "filter (\<lambda>peak. 30 \<le> peak_prominence x peak) (local_maxima_1d x) = k # rest"
    by (simp add: find_peaks_def)
  from hd_filter_sorted [OF s f]
  have least: "\<forall>j\<in>set (local_maxima_1d x). 30 \<le> peak_prominence x j \<longrightarrow> k \<le> j" by blast
  from assms have "k \<in> set (find_peaks x 30)" by simp
  then have "prominent_local_maximum x k" by (simp only: find_peaks_iff)
  moreover have "k \<le> j" if "prominent_local_maximum x j" for j
  proof -
    from that have "j \<in> set (find_peaks x 30)" by (simp only: find_peaks_iff)
    then have "j \<in> set (local_maxima_1d x)" "30 \<le> peak_prominence x j"
      by (simp_all add: find_peaks_def)
    with least show ?thesis by blast
  qed
  ultimately show ?thesis by blast
qed

lemma find_peaks_empty:
  "find_peaks x 30 = [] \<longleftrightarrow> (\<forall>i. \<not> prominent_local_maximum x i)"
proof -
  have "find_peaks x 30 = [] \<longleftrightarrow> set (find_peaks x 30) = {}" by simp
  also have "\<dots> \<longleftrightarrow> (\<forall>i. i \<notin> set (find_peaks x 30))" by auto
  also have "\<dots> \<longleftrightarrow> (\<forall>i. \<not> prominent_local_maximum x i)" by (simp only: find_peaks_iff)
  finally show ?thesis .
qed

lemma col_Inr_Arr2:
  "col a k = Inr x \<Longrightarrow> \<exists>rows. a = Arr2 rows \<and> k < ncols rows \<and> x = map (\<lambda>r. r ! k) rows"
  by (cases a) (auto simp: col_def split: if_splits)

text \<open>
  The end of the script by cases: the first output cannot be opened, the second cannot, or
  both files are written. The first work value has been printed in each case.
\<close>

lemma write_work_cases:
  "write_work fs w1 w2 =
     (if fs ''work_performed.xvg'' = Locked then (Inl OSError, fs, [w1])
      else if fs ''work_performed_gd_positions.xvg'' = Locked
      then (Inl OSError, fs(''work_performed.xvg'' := Table [[w1]]), [w1])
      else (Inr (), fs(''work_performed.xvg'' := Table [[w1]],
                       ''work_performed_gd_positions.xvg'' := Table [[w2]]), [w1]))"
  by (simp add: write_work_def open_for_writing_def Let_def)

text \<open>
  A run of the Work Integrator either raises before the end of the script, with every file
  as it was and nothing printed, or it has loaded three arrays and computed both integrals,
  and goes on to the end of the script.
\<close>

lemma py_compute_work_cases:
  "(\<exists>e. py_compute_work argv fs = (Inl e, fs, []))
   \<or> (\<exists>gd fd pd w1 w2. 3 < length argv
        \<and> loadtxt fs (argv ! 1) = Inr gd \<and> loadtxt fs (argv ! 2) = Inr fd
        \<and> loadtxt fs (argv ! 3) = Inr pd
        \<and> work_performed gd fd pd = Inr (w1, w2)
        \<and> py_compute_work argv fs = write_work fs w1 w2)"
proof (cases "3 < length argv")
  case False
  then show ?thesis
    by (auto simp: py_compute_work_def py_index_def bind_io_def split: sum.splits)
next
  case True
  then have i: "py_index argv 1 = Inr (argv ! 1)" "py_index argv 2 = Inr (argv ! 2)"
    "py_index argv 3 = Inr (argv ! 3)" by (simp_all add: py_index_def)
  show ?thesis
  proof (cases "loadtxt fs (argv ! 1)")
    case (Inl e)
    with i show ?thesis by (simp add: py_compute_work_def)
  next
    case gd: (Inr gd)
    show ?thesis
    proof (cases "loadtxt fs (argv ! 2)")
      case (Inl e)
      with i gd show ?thesis by (simp add: py_compute_work_def)
    next
      case fd: (Inr fd)
      show ?thesis
      proof (cases "loadtxt fs (argv ! 3)")
        case (Inl e)
        with i gd fd show ?thesis by (simp add: py_compute_work_def)
      next
        case pd: (Inr pd)
        show ?thesis
        proof (cases "work_performed gd fd pd")
          case (Inl e)
          with i gd fd pd show ?thesis by (simp add: py_compute_work_def)
        next
          case (Inr w)
          obtain w1 w2 where w: "w = (w1, w2)" by (cases w)
          with Inr have wp: "work_performed gd fd pd = Inr (w1, w2)" by simp
          with i gd fd pd have "py_compute_work argv fs = write_work fs w1 w2"
            by (simp add: py_compute_work_def)
          with True gd fd pd wp show ?thesis by blast
        qed
      qed
    qed
  qed
qed


lemma py_compute_work_returns:
  assumes "py_compute_work argv fs = (Inr u, fs', out)"
  shows "\<exists>gd fd pd w1 w2. 3 < length argv
        \<and> loadtxt fs (argv ! 1) = Inr gd \<and> loadtxt fs (argv ! 2) = Inr fd
        \<and> loadtxt fs (argv ! 3) = Inr pd
        \<and> work_performed gd fd pd = Inr (w1, w2)
        \<and> fs' = fs(''work_performed.xvg'' := Table [[w1]],
                     ''work_performed_gd_positions.xvg'' := Table [[w2]])
        \<and> out = [w1]"
proof -
  from py_compute_work_cases [of argv fs] show ?thesis
  proof (elim disjE exE conjE)
    fix e' assume "py_compute_work argv fs = (Inl e', fs, [])"
    with assms show ?thesis by simp
  next
    fix gd fd pd w1 w2
    assume l: "3 < length argv" "loadtxt fs (argv ! 1) = Inr gd" "loadtxt fs (argv ! 2) = Inr fd"
      "loadtxt fs (argv ! 3) = Inr pd" "work_performed gd fd pd = Inr (w1, w2)"
      and "py_compute_work argv fs = write_work fs w1 w2"
    with assms have "write_work fs w1 w2 = (Inr u, fs', out)" by simp
    then have "fs' = fs(''work_performed.xvg'' := Table [[w1]],
                     ''work_performed_gd_positions.xvg'' := Table [[w2]]) \<and> out = [w1]"
      by (auto simp: write_work_cases split: if_splits)
    with l show ?thesis by blast
  qed
qed

lemma work_performed_no_peak:
  assumes "col gd 1 = Inr x" and "find_peaks x 30 = []"
  shows "work_performed gd fd pd = Inl IndexError"
  using assms by (simp add: work_performed_def max_force_index_def py_index_def)

lemma max_force_index_first:
  assumes "col gd 1 = Inr x" and "prominent_local_maximum x i"
  shows "\<exists>k. max_force_index gd = Inr k \<and> prominent_local_maximum x k \<and> k \<le> i
         \<and> (\<forall>j<k. \<not> prominent_local_maximum x j)"
proof -
  from assms(2) have "find_peaks x 30 \<noteq> []"
    using find_peaks_empty [of x] by blast
  then obtain k rest where k: "find_peaks x 30 = k # rest"
    by (cases "find_peaks x 30") auto
  from find_peaks_first [OF k]
  have f: "prominent_local_maximum x k" "\<forall>j. prominent_local_maximum x j \<longrightarrow> k \<le> j"
    by simp_all
  from f(2) assms(2) have "k \<le> i" by blast
  moreover have "\<forall>j<k. \<not> prominent_local_maximum x j"
  proof (intro allI impI notI)
    fix j assume "j < k" and "prominent_local_maximum x j"
    with f(2) show False by fastforce
  qed
  moreover have "max_force_index gd = Inr k"
    using assms(1) k by (simp add: max_force_index_def py_index_def)
  ultimately show ?thesis using f(1) by blast
qed

lemma max_force_index_example:
  assumes "col gd 1 = Inr [0, 10, 40, 10, 0]"
  shows "max_force_index gd = Inr 2
      \<and> (\<exists>f p. gd_force_up_to_max gd 2 = Inr f \<and> gd_virtual_positions gd 2 = Inr p
           \<and> length f = 2 \<and> length p = 2)"
proof -
  have m: "max_force_index gd = Inr 2"
    using assms by (simp add: max_force_index_def find_peaks_example py_index_def)
  from col_Inr_Arr2 [OF assms] obtain rows where rows: "gd = Arr2 rows" "1 < ncols rows"
    "[0, 10, 40, 10, 0] = map (\<lambda>r. r ! 1) rows" by (elim exE conjE)
  have "length rows = length (map (\<lambda>r. r ! 1) rows)" by simp
  also have "\<dots> = length [0, 10, 40, 10, 0 :: real]" by (simp only: rows(3) [symmetric])
  also have "\<dots> = 5" by simp
  finally have len: "length rows = 5" .
  have f: "gd_force_up_to_max gd 2 = Inr (map (\<lambda>r. r ! 1) (take 2 rows))"
    using rows(1,2) by (simp add: gd_force_up_to_max_def slice_col_def)
  have p: "gd_virtual_positions gd 2 = Inr (map (\<lambda>r. r ! 0) (take 2 rows))"
    using rows(1,2) by (simp add: gd_virtual_positions_def slice_col_def)
  from len have "length (map (\<lambda>r. r ! 1) (take 2 rows)) = 2"
    "length (map (\<lambda>r. r ! 0) (take 2 rows)) = 2" by simp_all
  with m f p show ?thesis by blast
qed

lemma py_compute_work_no_peak:
  assumes "loadtxt fs (argv ! 1) = Inr gd" and "col gd 1 = Inr x"
    and "\<forall>j. \<not> prominent_local_maximum x j"
  shows "\<exists>e. py_compute_work argv fs = (Inl e, fs, [])"
proof -
  from assms(3) have np: "find_peaks x 30 = []" by (simp add: find_peaks_empty)
  from py_compute_work_cases [of argv fs] show ?thesis
  proof (elim disjE exE conjE)
    fix e assume "py_compute_work argv fs = (Inl e, fs, [])"
    then show ?thesis ..
  next
    fix gd' fd pd w1 w2
    assume "loadtxt fs (argv ! 1) = Inr gd'" and w: "work_performed gd' fd pd = Inr (w1, w2)"
    with assms(1) have "gd' = gd" by simp
    with w work_performed_no_peak [OF assms(2) np, of fd pd] show ?thesis by simp
  qed
qed

text \<open>
  C5. The index \<open>max_force_index\<close> is the first index of the denoised force column that
  passes the peak test (a local maximum, the middle of its plateau, of prominence at least
  30): it passes, and no smaller index does. For the column [0, 10, 40, 10, 0] it is 2, and
  the truncated denoised force and position arrays have length 2. When no index passes, the
  run ends with an exception (IndexError, from taking the first of no peaks), writes no file
  and prints nothing.
\<close>

theorem max_force_index_first_prominent_peak:
  "(col gd 1 = Inr x \<and> prominent_local_maximum x i \<longrightarrow>
      (\<exists>k. max_force_index gd = Inr k \<and> prominent_local_maximum x k \<and> k \<le> i
         \<and> (\<forall>j<k. \<not> prominent_local_maximum x j)))
   \<and> (col gd 1 = Inr [0, 10, 40, 10, 0] \<longrightarrow>
        max_force_index gd = Inr 2
      \<and> (\<exists>f p. gd_force_up_to_max gd 2 = Inr f \<and> gd_virtual_positions gd 2 = Inr p
           \<and> length f = 2 \<and> length p = 2))
   \<and> (loadtxt fs (argv ! 1) = Inr gd0 \<and> col gd0 1 = Inr x0
        \<and> (\<forall>j. \<not> prominent_local_maximum x0 j) \<longrightarrow>
        (\<exists>e. py_compute_work argv fs = (Inl e, fs, [])))"
proof (intro conjI impI)
  assume a: "col gd 1 = Inr x \<and> prominent_local_maximum x i"
  from a have 1: "col gd 1 = Inr x" and 2: "prominent_local_maximum x i" by (rule conjunct1, rule conjunct2)
  show "\<exists>k. max_force_index gd = Inr k \<and> prominent_local_maximum x k \<and> k \<le> i
         \<and> (\<forall>j<k. \<not> prominent_local_maximum x j)"
    by (rule max_force_index_first [OF 1 2])
next
  assume a: "col gd 1 = Inr [0, 10, 40, 10, 0]"
  from max_force_index_example [OF a] show "max_force_index gd = Inr 2" by (rule conjunct1)
  from max_force_index_example [OF a]
  show "\<exists>f p. gd_force_up_to_max gd 2 = Inr f \<and> gd_virtual_positions gd 2 = Inr p
           \<and> length f = 2 \<and> length p = 2" by (rule conjunct2)
next
  assume a: "loadtxt fs (argv ! 1) = Inr gd0 \<and> col gd0 1 = Inr x0
        \<and> (\<forall>j. \<not> prominent_local_maximum x0 j)"
  from a have 1: "loadtxt fs (argv ! 1) = Inr gd0" by (rule conjunct1)
  from a have 2: "col gd0 1 = Inr x0" by (rule conjunct2 [THEN conjunct1])
  from a have 3: "\<forall>j. \<not> prominent_local_maximum x0 j" by (rule conjunct2 [THEN conjunct2])
  show "\<exists>e. py_compute_work argv fs = (Inl e, fs, [])"
    by (rule py_compute_work_no_peak [OF 1 2 3])
qed

lemma find_peaks_flat_example: "find_peaks [0, 10, 20, 10, 0] 30 = []"
proof -
  let ?x = "[0, 10, 20, 10, 0] :: real list"
  have la: "look_ahead ?x 1 2 = 2" "look_ahead ?x 2 3 = 3"
    by (subst look_ahead.simps, simp)+
  have lm4: "local_maxima_from ?x 4 = []"
    by (subst local_maxima_from.simps) simp
  have lm2: "local_maxima_from ?x 2 = [2]"
    by (subst local_maxima_from.simps) (simp add: la lm4 Let_def del: One_nat_def)
  have lm: "local_maxima_1d ?x = [2]"
    unfolding local_maxima_1d_def
    by (subst local_maxima_from.simps) (simp add: la lm2 Let_def del: One_nat_def)
  have r5: "right_min_loop ?x 2 5 0 = 0"
    by (subst right_min_loop.simps) simp
  have r4: "right_min_loop ?x 2 4 10 = 0"
    by (subst right_min_loop.simps) (simp add: r5)
  have r3: "right_min_loop ?x 2 3 20 = 0"
    by (subst right_min_loop.simps) (simp add: r4)
  have r: "right_min_loop ?x 2 2 20 = 0"
    by (subst right_min_loop.simps) (simp add: r3)
  have l: "left_min_loop ?x 2 (Suc 2) 20 = 0"
    by (simp add: numeral_2_eq_2)
  have "peak_prominence ?x 2 = 20"
    using l r by (simp add: peak_prominence_def)
  with lm show ?thesis by (simp add: find_peaks_def)
qed

lemma example_work_tables:
  "loadtxt example_work_files ''gd.xvg'' = Inr (Arr2 example_gd_table)"
  "loadtxt example_work_files ''flat.xvg'' = Inr (Arr2 example_flat_table)"
  "loadtxt example_work_files ''f.xvg'' = Inr (Arr2 example_force_table)"
  "loadtxt example_work_files ''x.xvg'' = Inr (Arr2 example_force_table)"
  "col (Arr2 example_gd_table) 1 = Inr [0, 10, 40, 10, 0]"
  "col (Arr2 example_flat_table) 1 = Inr [0, 10, 20, 10, 0]"
  by (simp_all add: example_work_files_def example_gd_table_def example_flat_table_def
      example_force_table_def loadtxt_def parse_table_def rectangular_def ncols_def squeeze_def
      col_def)

theorem max_force_index_first_prominent_peak_witness:
  "col (Arr2 example_gd_table) 1 = Inr [0, 10, 40, 10, 0]
   \<and> prominent_local_maximum [0, 10, 40, 10, 0] 2
   \<and> max_force_index (Arr2 example_gd_table) = Inr 2
   \<and> gd_force_up_to_max (Arr2 example_gd_table) 2 = Inr [0, 10]
   \<and> gd_virtual_positions (Arr2 example_gd_table) 2 = Inr [0, 1]
   \<and> loadtxt example_work_files ''flat.xvg'' = Inr (Arr2 example_flat_table)
   \<and> col (Arr2 example_flat_table) 1 = Inr [0, 10, 20, 10, 0]
   \<and> find_peaks [0, 10, 20, 10, 0] 30 = []
   \<and> py_compute_work [''work'', ''flat.xvg'', ''f.xvg'', ''x.xvg''] example_work_files
        = (Inl IndexError, example_work_files, [])"
proof -
  have p: "prominent_local_maximum [0, 10, 40, 10, 0] 2"
    using find_peaks_first [of "[0, 10, 40, 10, 0]" 2 "[]"] by (simp add: find_peaks_example)
  have np: "\<forall>j. \<not> prominent_local_maximum [0, 10, 20, 10, 0] j"
    using find_peaks_empty [of "[0, 10, 20, 10, 0]"] by (simp add: find_peaks_flat_example)
  have l: "loadtxt example_work_files ([''work'', ''flat.xvg'', ''f.xvg'', ''x.xvg''] ! 1)
      = Inr (Arr2 example_flat_table)"
    by (simp add: example_work_tables)
  from max_force_index_first_prominent_peak
    [of "Arr2 example_gd_table" "[0, 10, 40, 10, 0]" 2 example_work_files
        "[''work'', ''flat.xvg'', ''f.xvg'', ''x.xvg'']" "Arr2 example_flat_table"
        "[0, 10, 20, 10, 0]"]
    p np l example_work_tables(5,6)
  have m: "max_force_index (Arr2 example_gd_table) = Inr 2"
    and e: "\<exists>e. py_compute_work [''work'', ''flat.xvg'', ''f.xvg'', ''x.xvg''] example_work_files
        = (Inl e, example_work_files, [])"
    by blast+
  have w: "work_performed (Arr2 example_flat_table) (Arr2 example_force_table)
      (Arr2 example_force_table) = Inl IndexError"
    by (rule work_performed_no_peak [OF example_work_tables(6) find_peaks_flat_example])
  have run: "py_compute_work [''work'', ''flat.xvg'', ''f.xvg'', ''x.xvg''] example_work_files
        = (Inl IndexError, example_work_files, [])"
    by (simp add: py_compute_work_def py_index_def example_work_tables w)
  have f: "gd_force_up_to_max (Arr2 example_gd_table) 2 = Inr [0, 10]"
    "gd_virtual_positions (Arr2 example_gd_table) 2 = Inr [0, 1]"
    by (simp_all add: gd_force_up_to_max_def gd_virtual_positions_def slice_col_def
        example_gd_table_def ncols_def)
  from p m f run example_work_tables(2,5,6) find_peaks_flat_example show ?thesis
    by (intro conjI)
qed

text \<open>
  C1, at an input where the program departs from it. The raw force table has the times
  0, 1, 2 in column 0 and the forces 5, 7, 3 in column 1. The greatest force is at row 1,
  so the claim gives the one-element series [5]. The program takes
  \<^verbatim>\<open>np.argmax(force_data)\<close> of the whole table: the greatest entry, 7, is at position 3
  of the flattened table, and the first 3 rows are kept, the peak and the drop after it
  included.
\<close>

theorem force_up_to_max_uses_flat_argmax:
  "loadtxt example_work_files ''f.xvg'' = Inr (Arr2 example_force_table)
   \<and> col (Arr2 example_force_table) 1 = Inr [5, 7, 3]
   \<and> np_argmax (Arr1 [5, 7, 3]) = Inr 1
   \<and> np_argmax (Arr2 example_force_table) = Inr 3
   \<and> force_up_to_max (Arr2 example_force_table) = Inr [5, 7, 3]
   \<and> take 1 [5, 7, 3 :: real] = [5]"
  by (simp add: example_work_tables force_up_to_max_def np_argmax_def flatten_def slice_col_def
      col_def ncols_def example_force_table_def)


section \<open>Failures\<close>








end
